theory Spec2Isabelle
  imports Main "HOL-Library.Sublist"
begin

text \<open>
  A shallow embedding of the HTTP server scaffold: the route declarations of \<^verbatim>\<open>Types.ts\<close>
  and, from \<^verbatim>\<open>Api.ts\<close>, the guard stage, the logging stage, the CORS rule, the wrapper for
  asynchronous handlers, the error handler and the life cycle of the \<^verbatim>\<open>Api\<close> object
  (constructor, \<^verbatim>\<open>init\<close>, \<^verbatim>\<open>start\<close>, \<^verbatim>\<open>stop\<close>). A JavaScript value is represented by what the
  code observes of it; what a stage does (the response it writes, the log entries, the
  calls it makes) is threaded through a context record. What the repository imports and
  does not contain (the framework's dispatch, the \<^verbatim>\<open>cors\<close> package, the constants) is a
  parameter or is modelled from the specification, and says so.
\<close>

section \<open>Data model (Types.ts)\<close>

text \<open>
  \<^verbatim>\<open>GuardResult\<close>: \<^verbatim>\<open>error\<close> and \<^verbatim>\<open>statusCode\<close> are optional fields of the interface, so
  both are options here; \<open>None\<close> is JavaScript's \<^verbatim>\<open>undefined\<close>.
\<close>

record GuardResult =
  accessPermitted :: bool
  error :: "string option"
  statusCode :: "int option"

datatype ApiMethod = POST | PUT | GET | DELETE

text \<open>The string value of each member of the \<^verbatim>\<open>ApiMethod\<close> enum.\<close>

fun method_string :: "ApiMethod \<Rightarrow> string" where
  "method_string POST = ''POST''"
| "method_string PUT = ''PUT''"
| "method_string GET = ''GET''"
| "method_string DELETE = ''DELETE''"

text \<open>
  What the code reads of an incoming request: \<^verbatim>\<open>req.method\<close>, \<^verbatim>\<open>req.path\<close>, \<^verbatim>\<open>req.ip\<close>
  and the \<^verbatim>\<open>Origin\<close> header. The last two are \<^verbatim>\<open>string | undefined\<close>: the source reads the
  address as \<^verbatim>\<open>req.ip!\<close>, an assertion that is erased at run time, so the value may still
  be \<^verbatim>\<open>undefined\<close>.
\<close>

record request =
  req_method :: string
  req_path :: string
  req_ip :: "string option"
  req_origin :: "string option"

text \<open>
  An error value is represented by the observations that are made of it: by the code,
  \<^verbatim>\<open>err.toString()\<close> and \<^verbatim>\<open>err.query\<close> (\<open>None\<close> when the property is missing or falsy), and by the
  framework, the status code that the error names in \<^verbatim>\<open>err.status\<close> or \<^verbatim>\<open>err.statusCode\<close>, if
  it names one.
\<close>

datatype failure = Failure (toString: string) (query: "string option") (errStatus: "int option")

text \<open>
  What a function may throw, or reject its promise with, is any JavaScript value. The
  framework's \<^verbatim>\<open>next(v)\<close> reads a falsy value (\<^verbatim>\<open>undefined\<close>, \<^verbatim>\<open>null\<close>, \<^verbatim>\<open>false\<close>, \<^verbatim>\<open>0\<close>, the
  empty string) as no error at all and the strings \<^verbatim>\<open>'route'\<close> and \<^verbatim>\<open>'router'\<close> as signals;
  every other value is an error.
\<close>

datatype thrown = Falsy | RouteString | RouterString | Err failure

text \<open>\<^verbatim>\<open>new Error(msg)\<close>: its \<^verbatim>\<open>toString()\<close> is the name, a colon and the message.\<close>

definition js_Error :: "string \<Rightarrow> failure" where
  "js_Error msg = Failure (if msg = [] then ''Error'' else ''Error: '' @ msg) None None"

text \<open>
  A response: the status code and the body, which is empty, an object sent with
  \<^verbatim>\<open>res.status(code).send(obj)\<close> (a list of fields whose values may be \<^verbatim>\<open>undefined\<close>), or a
  page that the framework writes by itself. Response headers are not modelled.
\<close>

datatype body = NoBody | Object "(string \<times> string option) list" | Page

record response =
  status :: "int option"
  body :: body

datatype log_entry =
    LogInfo string
  | LogError string
  | LogErrorObj failure "string option"

text \<open>
  Observable calls made while a request is processed: the matcher of the route at an
  index of the handler list was tested; the guard at an index of the chain was invoked
  and its promise settled with the given result.
\<close>

datatype event = RouteTest nat | GuardCall nat "thrown + GuardResult"

text \<open>
  The errors that the platform raises where the code can meet them: the one with which
  the response object refuses a status code that is \<^verbatim>\<open>undefined\<close> or not between 100 and
  999, and the \<^verbatim>\<open>TypeError\<close> of reading a property of \<^verbatim>\<open>undefined\<close>. Their texts depend on the
  versions of the framework and of the runtime, so they are parameters.
\<close>

record runtime =
  invalidStatus :: "int option \<Rightarrow> failure"
  undefinedRead :: failure

text \<open>
  The context of one request: the request, the response written so far (if any), the
  logger's output, the trace of observable calls, which the model keeps to say which
  calls a stage has made, and the platform's errors.
\<close>

record ctx =
  ctx_req :: request
  ctx_res :: "response option"
  ctx_log :: "log_entry list"
  ctx_trace :: "event list"
  ctx_rt :: runtime

text \<open>
  How the invocation of a middleware function ends: it called \<^verbatim>\<open>next()\<close>, it called
  \<^verbatim>\<open>next(v)\<close> with a value, it returned without calling \<^verbatim>\<open>next\<close> (the request is finished),
  it threw synchronously, or the promise it returned was rejected.
\<close>

datatype outcome = Next | NextErr thrown | Done | Thrown thrown | Rejected thrown

type_synonym middleware = "ctx \<Rightarrow> outcome \<times> ctx"

text \<open>
  What a route handler \<^verbatim>\<open>(req, res) => void\<close> does: it returns, having written a response
  or not, it throws synchronously, or it returns a promise that is rejected later, in
  both cases before it has written a response. A handler that fails after it has written
  its response is not in this type (the response object would refuse the error handler's
  write); the statements about failing handlers say so.
\<close>

datatype handler_result =
    Returned "response option"
  | ThrownSync thrown
  | RejectedAsync thrown

text \<open>
  \<^verbatim>\<open>ApiKeyGuard\<close>: called with the request, the route's path and the request's method; the
  promise it returns is fulfilled with a \<^verbatim>\<open>GuardResult\<close> or rejected. What a guard does
  with the response object it is also given is not modelled.
\<close>

type_synonym ApiKeyGuard = "request \<Rightarrow> string \<Rightarrow> string \<Rightarrow> thrown + GuardResult"

text \<open>
  \<^verbatim>\<open>RouteData\<close>. Its field \<^verbatim>\<open>method\<close> is called \<open>route_method\<close> here, the source's name
  being a keyword.
\<close>

record RouteData =
  path :: string
  description :: string
  routeImplementation :: "request \<Rightarrow> handler_result"
  route_method :: ApiMethod
  guards :: "ApiKeyGuard list option"

text \<open>
  \<^verbatim>\<open>ApiRoute extends RouteData\<close> with the compiled matcher. The code only uses the
  truthiness of what \<^verbatim>\<open>routeMatchTest\<close> returns.
\<close>

record ApiRoute = RouteData +
  routeMatchTest :: "string \<Rightarrow> bool"

section \<open>Request stages of Api.ts\<close>

text \<open>
  \<^verbatim>\<open>res.status(code).send(obj)\<close> on the framework's response object. The response is written
  with the given status code when the code is an integer from 100 to 999. For any other
  argument, \<^verbatim>\<open>undefined\<close> included, the response object throws, and nothing is sent. The
  stages of this file write at most one response for a request, so the refusal of a second
  write does not occur and is not represented.
\<close>

definition send :: "int option \<Rightarrow> body \<Rightarrow> ctx \<Rightarrow> failure + ctx" where
  "send code b c =
     (case code of
        None \<Rightarrow> Inl (invalidStatus (ctx_rt c) None)
      | Some n \<Rightarrow>
          if 100 \<le> n \<and> n \<le> 999
          then Inr (c\<lparr>ctx_res := Some \<lparr>status = Some n, body = b\<rparr>\<rparr>)
          else Inl (invalidStatus (ctx_rt c) (Some n)))"

text \<open>
  A stage that ends with \<^verbatim>\<open>res.status(code).send(obj); return\<close> inside an \<^verbatim>\<open>async\<close> function:
  the request is finished, or the promise of the function is rejected with what the
  response object threw.
\<close>

definition respond :: "int option \<Rightarrow> body \<Rightarrow> ctx \<Rightarrow> outcome \<times> ctx" where
  "respond code b c =
     (case send code b c of
        Inl e \<Rightarrow> (Rejected (Err e), c)
      | Inr c1 \<Rightarrow> (Done, c1))"

definition trace :: "event \<Rightarrow> ctx \<Rightarrow> ctx" where
  "trace ev c = c\<lparr>ctx_trace := ctx_trace c @ [ev]\<rparr>"

text \<open>
  The lookup loop of \<^verbatim>\<open>guardMiddleware\<close>: the handlers are tested in list order, starting
  at index \<open>i\<close>, and the loop breaks at the first one whose matcher accepts \<^verbatim>\<open>req.path\<close> and
  whose method is \<^verbatim>\<open>req.method\<close>.
\<close>

fun find_route :: "ApiRoute list \<Rightarrow> nat \<Rightarrow> ctx \<Rightarrow> ApiRoute option \<times> ctx" where
  "find_route [] i c = (None, c)"
| "find_route (h # hs) i c =
     (let c1 = trace (RouteTest i) c in
      if routeMatchTest h (req_path (ctx_req c)) \<and> method_string (route_method h) = req_method (ctx_req c)
      then (Some h, c1)
      else find_route hs (Suc i) c1)"

text \<open>
  The guard loop: each guard is awaited in turn, starting at index \<open>i\<close>; a guard that
  throws or whose promise is rejected rejects the promise of the stage; the first denial
  sends the guard's status and message and returns.
\<close>

fun run_guards :: "ApiKeyGuard list \<Rightarrow> nat \<Rightarrow> string \<Rightarrow> ctx \<Rightarrow> outcome \<times> ctx" where
  "run_guards [] i p c = (Next, c)"
| "run_guards (g # gs) i p c =
     (let res = g (ctx_req c) p (req_method (ctx_req c));
          c1 = trace (GuardCall i res) c in
      case res of
        Inl e \<Rightarrow> (Rejected e, c1)
      | Inr r \<Rightarrow>
          if \<not> accessPermitted r
          then respond (statusCode r) (Object [(''error'', error r)]) c1
          else run_guards gs (Suc i) p c1)"

definition guardMiddleware :: "ApiRoute list \<Rightarrow> middleware" where
  "guardMiddleware hs c =
     (if req_method (ctx_req c) = ''OPTIONS'' then (Next, c)
      else
        case find_route hs 0 c of
          (None, c1) \<Rightarrow> respond (Some 404) (Object [(''error'', Some ''Unknown route'')]) c1
        | (Some routeInfo, c1) \<Rightarrow>
            if req_method (ctx_req c) \<noteq> method_string (route_method routeInfo) \<or> path routeInfo = []
            then respond (Some 404) (Object [(''error'', Some ''Unknown route'')]) c1
            else
              (case guards routeInfo of
                 None \<Rightarrow> (Next, c1)
               | Some gs \<Rightarrow> run_guards gs 0 (path routeInfo) c1))"

text \<open>
  \<^verbatim>\<open>loggingMiddleware\<close>: \<^verbatim>\<open>ip.substr(0, 7)\<close> is the first seven characters (fewer when the
  string is shorter), \<^verbatim>\<open>ip.substr(7)\<close> what follows them. When \<^verbatim>\<open>req.ip\<close> is \<^verbatim>\<open>undefined\<close>, the
  call \<^verbatim>\<open>ip.substr(0, 7)\<close> throws; the function is \<^verbatim>\<open>async\<close>, so its promise is rejected, before
  anything is logged and without \<^verbatim>\<open>next\<close> being called.
\<close>

definition loggingMiddleware :: middleware where
  "loggingMiddleware c =
     (case req_ip (ctx_req c) of
        None \<Rightarrow> (Rejected (Err (undefinedRead (ctx_rt c))), c)
      | Some raw \<Rightarrow>
          (let ip = (if take 7 raw = ''::ffff:'' then drop 7 raw else raw)
           in (Next, c\<lparr>ctx_log := ctx_log c @
                 [LogInfo (''Recieved request for '' @ req_method (ctx_req c) @ '' '' @
                           req_path (ctx_req c) @ '' from '' @ ip)]\<rparr>)))"

text \<open>
  \<^verbatim>\<open>asyncWrapper\<close>: \<^verbatim>\<open>Promise.resolve(fn(req, res, next)).catch(next)\<close>. A rejection of the
  promise becomes \<^verbatim>\<open>next(v)\<close> with the value of the rejection; a synchronous throw of \<^verbatim>\<open>fn\<close>
  happens before the promise exists and leaves the wrapper as a throw.
\<close>

definition asyncWrapper :: "middleware \<Rightarrow> middleware" where
  "asyncWrapper fn c =
     (case fn c of
        (Rejected e, c1) \<Rightarrow> (NextErr e, c1)
      | (r, c1) \<Rightarrow> (r, c1))"

text \<open>A route handler called as a middleware function (it ignores \<^verbatim>\<open>next\<close>).\<close>

definition call_handler :: "(request \<Rightarrow> handler_result) \<Rightarrow> middleware" where
  "call_handler f c =
     (case f (ctx_req c) of
        Returned None \<Rightarrow> (Done, c)
      | Returned (Some r) \<Rightarrow> (Done, c\<lparr>ctx_res := Some r\<rparr>)
      | ThrownSync e \<Rightarrow> (Thrown e, c)
      | RejectedAsync e \<Rightarrow> (Rejected e, c))"

definition getStatus :: "request \<Rightarrow> handler_result" where
  "getStatus r = Returned (Some \<lparr>status = Some 200, body = Object [(''status'', Some ''ok'')]\<rparr>)"

text \<open>
  The error-handling middleware registered last by \<^verbatim>\<open>init\<close>. It is not \<^verbatim>\<open>async\<close>: what the
  response object throws leaves it as a throw.
\<close>

definition errorHandler :: "failure \<Rightarrow> middleware" where
  "errorHandler err c =
     (let c1 = (if query err \<noteq> None
                then c\<lparr>ctx_log := ctx_log c @ [LogErrorObj err (query err)]\<rparr>
                else c\<lparr>ctx_log := ctx_log c @ [LogErrorObj err None]\<rparr>)
      in case send (Some 500) (Object [(''error'', Some (toString err))]) c1 of
           Inl e \<Rightarrow> (Thrown (Err e), c1)
         | Inr c2 \<Rightarrow> (Done, c2))"

text \<open>
  The \<^verbatim>\<open>origin\<close> function of \<^verbatim>\<open>corsOptions\<close>, given the allow-list, the value of the
  \<^verbatim>\<open>Origin\<close> header and the log. \<^verbatim>\<open>!origin\<close> holds of \<^verbatim>\<open>undefined\<close> and of the empty string.
  The result is what is passed to the callback: an error, or \<^verbatim>\<open>true\<close>.
\<close>

definition corsOrigin ::
  "string list \<Rightarrow> string option \<Rightarrow> log_entry list \<Rightarrow> (failure + bool) \<times> log_entry list" where
  "corsOrigin whitelist origin lg =
     (case origin of
        None \<Rightarrow> (Inr True, lg)
      | Some orig \<Rightarrow>
          if orig = [] \<or> orig \<in> set whitelist \<or> prefix ''http://localhost'' orig
          then (Inr True, lg)
          else (Inl (js_Error ''Not allowed by CORS''),
                lg @ [LogError (''Request with origin of '' @ orig @ '' is not allowed by CORS!'')]))"

section \<open>The framework's pipeline\<close>

text \<open>
  Modelled from the spec: the middleware returned by \<^verbatim>\<open>cors(corsOptions)\<close> belongs to the
  \<^verbatim>\<open>cors\<close> package, which is not in the repository. Following 4.2, it asks the \<^verbatim>\<open>origin\<close>
  function; a rejection is forwarded as \<^verbatim>\<open>next(err)\<close>, a permitted \<^verbatim>\<open>OPTIONS\<close> request
  (preflight) is answered by this stage directly, with status 204 and no body, any other
  permitted request continues.
\<close>

definition cors_mw :: "string list \<Rightarrow> middleware" where
  "cors_mw whitelist c =
     (case corsOrigin whitelist (req_origin (ctx_req c)) (ctx_log c) of
        (Inl e, lg) \<Rightarrow> (NextErr (Err e), c\<lparr>ctx_log := lg\<rparr>)
      | (Inr allowed, lg) \<Rightarrow>
          if \<not> allowed then (Next, c\<lparr>ctx_log := lg\<rparr>)
          else if req_method (ctx_req c) = ''OPTIONS''
          then (Done, c\<lparr>ctx_log := lg, ctx_res := Some \<lparr>status = Some 204, body = NoBody\<rparr>\<rparr>)
          else (Next, c\<lparr>ctx_log := lg\<rparr>))"

text \<open>
  What the repository imports and \<^verbatim>\<open>src/\<close> does not contain: the constants of
  \<^verbatim>\<open>Constants.js\<close> (the allow-list as a list of origins, the port), the pattern compiler
  \<^verbatim>\<open>match\<close> of \<^verbatim>\<open>path-to-regexp\<close> (pattern, then path), the framework's own test whether a
  route layer registered for a method name and a path pattern applies to a request, and
  the JSON body parser \<^verbatim>\<open>express.json\<close>.
\<close>

record externals =
  CORS_WHITELIST :: "string list"
  SERVER_PORT :: nat
  pathMatch :: "string \<Rightarrow> string \<Rightarrow> bool"
  routeApplies :: "string \<Rightarrow> string \<Rightarrow> request \<Rightarrow> bool"
  jsonParser :: middleware

text \<open>
  An entry of the application's middleware stack: \<^verbatim>\<open>app.use(fn)\<close>, a route registered
  with \<^verbatim>\<open>app.get/post/put/delete/options(path, fn)\<close> (method name, path pattern), or an
  error-handling middleware (\<^verbatim>\<open>app.use\<close> of a function of four arguments).
\<close>

datatype layer =
    Use middleware
  | Route string string middleware
  | ErrorUse "failure \<Rightarrow> middleware"

fun is_error_layer :: "layer \<Rightarrow> bool" where
  "is_error_layer (ErrorUse f) = True"
| "is_error_layer l = False"

fun layer_applies :: "externals \<Rightarrow> layer \<Rightarrow> request \<Rightarrow> bool" where
  "layer_applies x (Use f) r = True"
| "layer_applies x (Route m p f) r = routeApplies x m p r"
| "layer_applies x (ErrorUse f) r = True"

fun run_layer :: "layer \<Rightarrow> middleware" where
  "run_layer (Use f) c = f c"
| "run_layer (Route m p f) c = f c"
| "run_layer (ErrorUse f) c = (Next, c)"

text \<open>
  Modelled from the spec: how the framework goes on after the invocation of a stage.
  \<^verbatim>\<open>next()\<close> continues with the following stages. A value passed to \<^verbatim>\<open>next\<close>, or thrown
  synchronously and caught at the invocation site, is read as follows: a falsy value and
  the string \<^verbatim>\<open>'route'\<close> continue like \<^verbatim>\<open>next()\<close>, the string \<^verbatim>\<open>'router'\<close> leaves the stack, any
  other value is an error and is forwarded (4.6). A stage that returns without calling
  \<^verbatim>\<open>next\<close> ends the processing, and so does a rejected promise that nothing catches: the
  request is left as it is.
\<close>

datatype signal = Continue | Fail failure | Leave | Stop

fun forward :: "thrown \<Rightarrow> signal" where
  "forward Falsy = Continue"
| "forward RouteString = Continue"
| "forward RouterString = Leave"
| "forward (Err e) = Fail e"

fun signal_of :: "outcome \<Rightarrow> signal" where
  "signal_of Next = Continue"
| "signal_of (NextErr v) = forward v"
| "signal_of (Thrown v) = forward v"
| "signal_of Done = Stop"
| "signal_of (Rejected v) = Stop"

text \<open>
  Modelled from the spec: what the framework does when the stack is left with no stage
  having finished the request. If nothing has been sent, it answers with a page of its
  own: with status 404 when no error is being forwarded; when one is, with the status
  that the error names if that is between 400 and 599, and with status 500 otherwise.
\<close>

definition finalhandler :: "failure option \<Rightarrow> ctx \<Rightarrow> ctx" where
  "finalhandler err c =
     (if ctx_res c \<noteq> None then c
      else
        let code = (case err of
                      None \<Rightarrow> 404
                    | Some e \<Rightarrow>
                        (case errStatus e of
                           None \<Rightarrow> 500
                         | Some n \<Rightarrow> if 400 \<le> n \<and> n \<le> 599 then n else 500))
        in c\<lparr>ctx_res := Some \<lparr>status = Some code, body = Page\<rparr>\<rparr>)"

text \<open>
  Modelled from the spec: the framework's dispatch, which is not in the repository.
  Following 2 and 4.6, a request passes the stages in registration order; an error that
  is forwarded skips every ordinary stage and reaches the next error-handling stage,
  which is reached in no other way. The third argument is the error being forwarded, if
  any.
\<close>

fun dispatch :: "externals \<Rightarrow> layer list \<Rightarrow> failure option \<Rightarrow> ctx \<Rightarrow> ctx" where
  "dispatch x [] err c = finalhandler err c"
| "dispatch x (l # ls) None c =
     (if is_error_layer l \<or> \<not> layer_applies x l (ctx_req c) then dispatch x ls None c
      else
        case run_layer l c of
          (r, c1) \<Rightarrow>
            (case signal_of r of
               Continue \<Rightarrow> dispatch x ls None c1
             | Fail e \<Rightarrow> dispatch x ls (Some e) c1
             | Leave \<Rightarrow> finalhandler None c1
             | Stop \<Rightarrow> c1))"
| "dispatch x (l # ls) (Some e) c =
     (case l of
        ErrorUse f \<Rightarrow>
          (case f e c of
             (r, c1) \<Rightarrow>
               (case signal_of r of
                  Continue \<Rightarrow> dispatch x ls None c1
                | Fail e1 \<Rightarrow> dispatch x ls (Some e1) c1
                | Leave \<Rightarrow> finalhandler None c1
                | Stop \<Rightarrow> c1))
      | _ \<Rightarrow> dispatch x ls (Some e) c)"

section \<open>The Api class\<close>

text \<open>
  A server created by \<^verbatim>\<open>httpServer.listen(port, cb)\<close>: the port it was asked to bind and
  whether \<^verbatim>\<open>close\<close> has been called on it. Whether the operating system grants the bind
  is outside the model.
\<close>

record server =
  port :: nat
  closed :: bool

text \<open>
  The fields of \<^verbatim>\<open>Api\<close>. \<^verbatim>\<open>httpServer\<close> is the express application, represented by its
  middleware stack and its \<^verbatim>\<open>trust proxy\<close> setting; \<^verbatim>\<open>runningServer\<close> is a handle, the index
  into \<open>servers\<close>, the servers that \<^verbatim>\<open>listen\<close> has created so far.
\<close>

record Api =
  httpServer :: "layer list"
  trustProxy :: bool
  runningServer :: "nat option"
  running :: bool
  handlers :: "ApiRoute list"
  handlerMap :: "string \<rightharpoonup> ApiRoute"
  servers :: "server list"

text \<open>The route declarations of the field initialiser \<^verbatim>\<open>routeData\<close>.\<close>

definition routeData :: "RouteData list" where
  "routeData =
     [\<lparr>path = ''/'', description = ''Check the API is online'',
       routeImplementation = getStatus, route_method = GET, guards = None\<rparr>]"

text \<open>The key of \<^verbatim>\<open>handlerMap\<close>: the template string of path, a dash and method.\<close>

definition route_key :: "string \<Rightarrow> ApiMethod \<Rightarrow> string" where
  "route_key p m = p @ ''-'' @ method_string m"

text \<open>
  The constructor, with the declaration list as a parameter. \<^verbatim>\<open>new Map(entries)\<close> sets
  the entries one after the other, so a later entry replaces an earlier one of the same
  key.
\<close>

definition constructor :: "externals \<Rightarrow> RouteData list \<Rightarrow> Api" where
  "constructor x rd =
     (let hs = map (\<lambda>r. \<lparr>path = path r, description = description r,
                          routeImplementation = routeImplementation r, route_method = route_method r,
                          guards = guards r, routeMatchTest = pathMatch x (path r)\<rparr>) rd
      in \<lparr>httpServer = [], trustProxy = False, runningServer = None, running = False,
          handlers = hs,
          handlerMap = foldl (\<lambda>m h. m(route_key (path h) (route_method h) \<mapsto> h)) Map.empty hs,
          servers = []\<rparr>)"

definition use :: "layer \<Rightarrow> Api \<Rightarrow> Api" where
  "use l a = a\<lparr>httpServer := httpServer a @ [l]\<rparr>"

text \<open>
  The \<^verbatim>\<open>switch\<close> of \<^verbatim>\<open>init\<close> over the method of a handler. Its \<^verbatim>\<open>default\<close> branch, which
  throws, is not reached by a member of the enum.
\<close>

fun attach :: "ApiMethod \<Rightarrow> string \<Rightarrow> middleware \<Rightarrow> Api \<Rightarrow> Api" where
  "attach GET p f a = use (Route ''GET'' p f) a"
| "attach POST p f a = use (Route ''POST'' p f) a"
| "attach PUT p f a = use (Route ''PUT'' p f) a"
| "attach DELETE p f a = use (Route ''DELETE'' p f) a"

fun attach_handlers :: "ApiRoute list \<Rightarrow> Api \<Rightarrow> Api" where
  "attach_handlers [] a = a"
| "attach_handlers (h # hs) a =
     attach_handlers hs
       (attach (route_method h) (path h) (asyncWrapper (call_handler (routeImplementation h))) a)"

definition init :: "externals \<Rightarrow> Api \<Rightarrow> Api" where
  "init x a =
     (let a1 = a\<lparr>trustProxy := True\<rparr>;
          a2 = use (Use (cors_mw (CORS_WHITELIST x))) a1;
          a3 = use (Route ''OPTIONS'' ''*'' (cors_mw (CORS_WHITELIST x))) a2;
          a4 = use (Use (asyncWrapper loggingMiddleware)) a3;
          a5 = use (Use (asyncWrapper (guardMiddleware (handlers a)))) a4;
          a6 = use (Use (jsonParser x)) a5;
          a7 = attach_handlers (handlers a) a6
      in use (ErrorUse errorHandler) a7)"

text \<open>
  \<^verbatim>\<open>httpServer.listen(port, cb)\<close>: every call creates a new server for the application
  and returns it.
\<close>

definition listen :: "nat \<Rightarrow> Api \<Rightarrow> nat \<times> Api" where
  "listen p a = (length (servers a), a\<lparr>servers := servers a @ [\<lparr>port = p, closed = False\<rparr>]\<rparr>)"

definition close :: "nat \<Rightarrow> Api \<Rightarrow> Api" where
  "close h a =
     (if h < length (servers a)
      then a\<lparr>servers := (servers a)[h := (servers a ! h)\<lparr>closed := True\<rparr>]\<rparr>
      else a)"

text \<open>
  \<^verbatim>\<open>start()\<close>: the state in which the promise it returns is resolved, that is, when the
  callback given to \<^verbatim>\<open>listen\<close> has been called.
\<close>

definition start :: "externals \<Rightarrow> Api \<Rightarrow> Api" where
  "start x a =
     (let a1 = (if \<not> running a then init x a else a);
          a2 = a1\<lparr>running := True\<rparr>;
          (h, a3) = listen (SERVER_PORT x) a2
      in a3\<lparr>runningServer := Some h\<rparr>)"

text \<open>
  \<^verbatim>\<open>stop()\<close>: \<open>None\<close> when the promise it awaits is never resolved, which is the case when
  \<^verbatim>\<open>running\<close> is set and there is no \<^verbatim>\<open>runningServer\<close>.
\<close>

definition stop :: "Api \<Rightarrow> Api option" where
  "stop a =
     (if running a
      then (case runningServer a of
              Some h \<Rightarrow> Some ((close h a)\<lparr>running := False\<rparr>)
            | None \<Rightarrow> None)
      else Some a)"

text \<open>The application answering a request: the stack is run from its first layer.\<close>

definition serve :: "externals \<Rightarrow> Api \<Rightarrow> ctx \<Rightarrow> ctx" where
  "serve x a c = dispatch x (httpServer a) None c"

section \<open>Notions used in the statements\<close>

text \<open>A route accepts a request: its matcher accepts the path and its method is the request's.\<close>

definition route_accepts :: "ApiRoute \<Rightarrow> request \<Rightarrow> bool" where
  "route_accepts h r \<longleftrightarrow> routeMatchTest h (req_path r) \<and> method_string (route_method h) = req_method r"

text \<open>The layer that \<^verbatim>\<open>init\<close> registers for a handler, and the whole stack it registers.\<close>

definition route_layer :: "ApiRoute \<Rightarrow> layer" where
  "route_layer h =
     Route (method_string (route_method h)) (path h) (asyncWrapper (call_handler (routeImplementation h)))"

definition pipeline :: "externals \<Rightarrow> ApiRoute list \<Rightarrow> layer list" where
  "pipeline x hs =
     [Use (cors_mw (CORS_WHITELIST x)),
      Route ''OPTIONS'' ''*'' (cors_mw (CORS_WHITELIST x)),
      Use (asyncWrapper loggingMiddleware),
      Use (asyncWrapper (guardMiddleware hs)),
      Use (jsonParser x)] @ map route_layer hs @ [ErrorUse errorHandler]"

section \<open>Example inputs\<close>

definition ex_externals :: externals where
  "ex_externals =
     \<lparr>CORS_WHITELIST = [''https://app.example.com''], SERVER_PORT = 8080,
      pathMatch = (\<lambda>pat p. p = pat),
      routeApplies = (\<lambda>m pat r. req_method r = m \<and> (pat = ''*'' \<or> req_path r = pat)),
      jsonParser = (\<lambda>c. (Next, c))\<rparr>"

definition ex_runtime :: runtime where
  "ex_runtime =
     \<lparr>invalidStatus = (\<lambda>code. Failure ''RangeError: Invalid status code'' None None),
      undefinedRead = Failure ''TypeError: Cannot read properties of undefined'' None None\<rparr>"

definition ex_ctx :: "string \<Rightarrow> string \<Rightarrow> string option \<Rightarrow> ctx" where
  "ex_ctx m p orig =
     \<lparr>ctx_req = \<lparr>req_method = m, req_path = p, req_ip = Some ''::ffff:203.0.113.5'',
                 req_origin = orig\<rparr>,
      ctx_res = None, ctx_log = [], ctx_trace = [], ctx_rt = ex_runtime\<rparr>"

text \<open>A request that arrives without a client address.\<close>

definition ex_ctx_no_ip :: "string \<Rightarrow> string \<Rightarrow> ctx" where
  "ex_ctx_no_ip m p =
     \<lparr>ctx_req = \<lparr>req_method = m, req_path = p, req_ip = None, req_origin = None\<rparr>,
      ctx_res = None, ctx_log = [], ctx_trace = [], ctx_rt = ex_runtime\<rparr>"

definition permit :: ApiKeyGuard where
  "permit r p m = Inr \<lparr>accessPermitted = True, error = None, statusCode = None\<rparr>"

definition deny :: "string \<Rightarrow> int \<Rightarrow> ApiKeyGuard" where
  "deny msg code r p m = Inr \<lparr>accessPermitted = False, error = Some msg, statusCode = Some code\<rparr>"

text \<open>A guard that denies and names no status code.\<close>

definition deny_bare :: "string \<Rightarrow> ApiKeyGuard" where
  "deny_bare msg r p m = Inr \<lparr>accessPermitted = False, error = Some msg, statusCode = None\<rparr>"

definition ex_routeData :: "RouteData list" where
  "ex_routeData =
     [\<lparr>path = ''/'', description = ''Check the API is online'',
       routeImplementation = getStatus, route_method = GET, guards = None\<rparr>,
      \<lparr>path = ''/secret'', description = ''Guarded'',
       routeImplementation = getStatus, route_method = GET,
       guards = Some [permit, deny ''nope'' 403, deny ''late'' 401]\<rparr>]"

definition ex_handlers :: "ApiRoute list" where
  "ex_handlers = handlers (constructor ex_externals ex_routeData)"

text \<open>A guarded route declared after an open route of the same path and method.\<close>

definition shadow_routeData :: "RouteData list" where
  "shadow_routeData =
     [\<lparr>path = ''/x'', description = ''open'',
       routeImplementation = getStatus, route_method = GET, guards = None\<rparr>,
      \<lparr>path = ''/x'', description = ''guarded'',
       routeImplementation = getStatus, route_method = GET,
       guards = Some [deny ''nope'' 403]\<rparr>]"

text \<open>Two declarations of the same path and method.\<close>

definition dup_routeData :: "RouteData list" where
  "dup_routeData =
     [\<lparr>path = ''/'', description = ''first'',
       routeImplementation = getStatus, route_method = GET, guards = None\<rparr>,
      \<lparr>path = ''/'', description = ''second'',
       routeImplementation = (\<lambda>r. Returned None), route_method = GET, guards = None\<rparr>]"

text \<open>The declared route and a route whose handler ends in a given way.\<close>

definition failing_routeData :: "handler_result \<Rightarrow> RouteData list" where
  "failing_routeData res =
     [\<lparr>path = ''/'', description = ''Check the API is online'',
       routeImplementation = getStatus, route_method = GET, guards = None\<rparr>,
      \<lparr>path = ''/boom'', description = ''fails'', routeImplementation = (\<lambda>r. res),
       route_method = POST, guards = None\<rparr>]"

text \<open>Routes whose guard chains deny without a status code that can be sent.\<close>

definition bare_routeData :: "RouteData list" where
  "bare_routeData =
     [\<lparr>path = ''/'', description = ''Check the API is online'',
       routeImplementation = getStatus, route_method = GET, guards = None\<rparr>,
      \<lparr>path = ''/bare'', description = ''Denied without a status'',
       routeImplementation = getStatus, route_method = GET,
       guards = Some [permit, deny_bare ''no key'', deny ''late'' 401]\<rparr>,
      \<lparr>path = ''/wide'', description = ''Denied with a status out of range'',
       routeImplementation = getStatus, route_method = GET,
       guards = Some [deny ''no key'' 1000]\<rparr>]"

section \<open>Auxiliary facts\<close>

lemmas ex_defs =
  ex_handlers_def ex_ctx_def ex_ctx_no_ip_def ex_runtime_def ex_routeData_def ex_externals_def
  dup_routeData_def failing_routeData_def bare_routeData_def shadow_routeData_def
  permit_def deny_def deny_bare_def
  constructor_def route_key_def getStatus_def

lemma ctx_req_trace [simp]: "ctx_req (trace ev c) = ctx_req c"
  by (simp add: trace_def)

subsection \<open>The lookup loop\<close>

lemma find_route_first:
  assumes "j < length hs" "route_accepts (hs ! j) (ctx_req c)"
    and "\<forall>i<j. \<not> route_accepts (hs ! i) (ctx_req c)"
  shows "find_route hs n c =
           (Some (hs ! j), c\<lparr>ctx_trace := ctx_trace c @ map RouteTest [n..<n + Suc j]\<rparr>)"
  using assms
proof (induction hs arbitrary: j n c)
  case Nil
  then show ?case by simp
next
  case (Cons h hs)
  show ?case
  proof (cases j)
    case 0
    with Cons.prems show ?thesis
      by (simp add: route_accepts_def trace_def)
  next
    case (Suc j')
    from Cons.prems Suc have nh: "\<not> route_accepts h (ctx_req c)" by auto
    have a: "j' < length hs" using Cons.prems Suc by simp
    have b: "route_accepts (hs ! j') (ctx_req (trace (RouteTest n) c))"
      using Cons.prems Suc by simp
    have c': "\<forall>i<j'. \<not> route_accepts (hs ! i) (ctx_req (trace (RouteTest n) c))"
      using Cons.prems Suc by auto
    have "find_route (h # hs) n c = find_route hs (Suc n) (trace (RouteTest n) c)"
      using nh by (auto simp: route_accepts_def Let_def)
    also have "\<dots> = (Some (hs ! j'), (trace (RouteTest n) c)\<lparr>ctx_trace :=
          ctx_trace (trace (RouteTest n) c) @ map RouteTest [Suc n..<Suc n + Suc j']\<rparr>)"
      by (rule Cons.IH [OF a b c'])
    also have "\<dots> = (Some ((h # hs) ! j),
          c\<lparr>ctx_trace := ctx_trace c @ map RouteTest [n..<n + Suc j]\<rparr>)"
      using Suc by (simp add: trace_def upt_conv_Cons del: upt_Suc)
    finally show ?thesis .
  qed
qed

lemma find_route_none:
  assumes "\<forall>h \<in> set hs. \<not> route_accepts h (ctx_req c)"
  shows "find_route hs n c =
           (None, c\<lparr>ctx_trace := ctx_trace c @ map RouteTest [n..<n + length hs]\<rparr>)"
  using assms
proof (induction hs arbitrary: n c)
  case Nil
  then show ?case by simp
next
  case (Cons h hs)
  have "find_route (h # hs) n c = find_route hs (Suc n) (trace (RouteTest n) c)"
    using Cons.prems by (auto simp: route_accepts_def Let_def)
  also have "\<dots> = (None, (trace (RouteTest n) c)\<lparr>ctx_trace :=
          ctx_trace (trace (RouteTest n) c) @ map RouteTest [Suc n..<Suc n + length hs]\<rparr>)"
    using Cons.prems by (intro Cons.IH) simp
  also have "\<dots> = (None,
          c\<lparr>ctx_trace := ctx_trace c @ map RouteTest [n..<n + length (h # hs)]\<rparr>)"
    by (simp add: trace_def upt_conv_Cons del: upt_Suc)
  finally show ?case .
qed

subsection \<open>The guard loop\<close>

lemma ctx_rt_trace [simp]: "ctx_rt (trace ev c) = ctx_rt c"
  by (simp add: trace_def)

lemma respond_valid:
  "100 \<le> n \<Longrightarrow> n \<le> 999 \<Longrightarrow>
   respond (Some n) b c = (Done, c\<lparr>ctx_res := Some \<lparr>status = Some n, body = b\<rparr>\<rparr>)"
  by (simp add: respond_def send_def)

lemma respond_missing:
  "respond None b c = (Rejected (Err (invalidStatus (ctx_rt c) None)), c)"
  by (simp add: respond_def send_def)

lemma run_guards_permitted:
  assumes "k \<le> length gs"
    and "\<forall>i<k. \<exists>r. (gs ! i) (ctx_req c) p (req_method (ctx_req c)) = Inr r \<and> accessPermitted r"
  shows "run_guards gs n p c =
           run_guards (drop k gs) (n + k) p
             (c\<lparr>ctx_trace := ctx_trace c @
                 map (\<lambda>i. GuardCall (n + i) ((gs ! i) (ctx_req c) p (req_method (ctx_req c)))) [0..<k]\<rparr>)"
  using assms
proof (induction gs arbitrary: k n c)
  case Nil
  then show ?case by simp
next
  case (Cons g gs)
  show ?case
  proof (cases k)
    case 0
    then show ?thesis by simp
  next
    case (Suc k')
    let ?res = "g (ctx_req c) p (req_method (ctx_req c))"
    let ?c1 = "trace (GuardCall n ?res) c"
    from Cons.prems(2) Suc obtain r where r: "?res = Inr r" "accessPermitted r" by fastforce
    have a: "k' \<le> length gs" using Cons.prems(1) Suc by simp
    have b: "\<forall>i<k'. \<exists>r. (gs ! i) (ctx_req ?c1) p (req_method (ctx_req ?c1)) = Inr r \<and> accessPermitted r"
      using Cons.prems(2) Suc by fastforce
    have "run_guards (g # gs) n p c = run_guards gs (Suc n) p ?c1"
      using r by (simp add: Let_def)
    also have "\<dots> = run_guards (drop k' gs) (Suc n + k') p
        (?c1\<lparr>ctx_trace := ctx_trace ?c1 @
           map (\<lambda>i. GuardCall (Suc n + i) ((gs ! i) (ctx_req ?c1) p (req_method (ctx_req ?c1)))) [0..<k']\<rparr>)"
      by (rule Cons.IH [OF a b])
    also have "\<dots> = run_guards (drop k (g # gs)) (n + k) p
        (c\<lparr>ctx_trace := ctx_trace c @
           map (\<lambda>i. GuardCall (n + i) (((g # gs) ! i) (ctx_req c) p (req_method (ctx_req c)))) [0..<k]\<rparr>)"
      using Suc by (simp add: trace_def map_upt_Suc del: upt_Suc)
    finally show ?thesis .
  qed
qed

lemma run_guards_all_permit:
  assumes "\<forall>i<length gs. \<exists>r. (gs ! i) (ctx_req c) p (req_method (ctx_req c)) = Inr r \<and> accessPermitted r"
  shows "run_guards gs n p c =
           (Next, c\<lparr>ctx_trace := ctx_trace c @
              map (\<lambda>i. GuardCall (n + i) ((gs ! i) (ctx_req c) p (req_method (ctx_req c)))) [0..<length gs]\<rparr>)"
  using run_guards_permitted [OF le_refl assms, of n] by simp

lemma run_guards_first_denial:
  assumes "k < length gs"
    and "\<forall>i<k. \<exists>r. (gs ! i) (ctx_req c) p (req_method (ctx_req c)) = Inr r \<and> accessPermitted r"
    and "(gs ! k) (ctx_req c) p (req_method (ctx_req c)) = Inr r" "\<not> accessPermitted r"
  shows "run_guards gs n p c =
           respond (statusCode r) (Object [(''error'', error r)])
             (c\<lparr>ctx_trace := ctx_trace c @
                 map (\<lambda>i. GuardCall (n + i) ((gs ! i) (ctx_req c) p (req_method (ctx_req c)))) [0..<Suc k]\<rparr>)"
proof -
  let ?c1 = "c\<lparr>ctx_trace := ctx_trace c @
     map (\<lambda>i. GuardCall (n + i) ((gs ! i) (ctx_req c) p (req_method (ctx_req c)))) [0..<k]\<rparr>"
  have le: "k \<le> length gs" using assms(1) by simp
  have d: "drop k gs = gs ! k # drop (Suc k) gs" using assms(1) by (simp add: Cons_nth_drop_Suc)
  have "run_guards gs n p c = run_guards (gs ! k # drop (Suc k) gs) (n + k) p ?c1"
    using run_guards_permitted [OF le assms(2), of n] d by simp
  also have "\<dots> = respond (statusCode r) (Object [(''error'', error r)])
      (trace (GuardCall (n + k) (Inr r)) ?c1)"
    using assms(3,4) by (simp add: Let_def)
  also have "trace (GuardCall (n + k) (Inr r)) ?c1 =
      c\<lparr>ctx_trace := ctx_trace c @
         map (\<lambda>i. GuardCall (n + i) ((gs ! i) (ctx_req c) p (req_method (ctx_req c)))) [0..<Suc k]\<rparr>"
    using assms(3) by (simp add: trace_def)
  finally show ?thesis .
qed

lemma run_guards_first_failure:
  assumes "k < length gs"
    and "\<forall>i<k. \<exists>r. (gs ! i) (ctx_req c) p (req_method (ctx_req c)) = Inr r \<and> accessPermitted r"
    and "(gs ! k) (ctx_req c) p (req_method (ctx_req c)) = Inl v"
  shows "run_guards gs n p c =
           (Rejected v,
            c\<lparr>ctx_trace := ctx_trace c @
                 map (\<lambda>i. GuardCall (n + i) ((gs ! i) (ctx_req c) p (req_method (ctx_req c)))) [0..<Suc k]\<rparr>)"
proof -
  let ?c1 = "c\<lparr>ctx_trace := ctx_trace c @
     map (\<lambda>i. GuardCall (n + i) ((gs ! i) (ctx_req c) p (req_method (ctx_req c)))) [0..<k]\<rparr>"
  have le: "k \<le> length gs" using assms(1) by simp
  have d: "drop k gs = gs ! k # drop (Suc k) gs" using assms(1) by (simp add: Cons_nth_drop_Suc)
  have "run_guards gs n p c = run_guards (gs ! k # drop (Suc k) gs) (n + k) p ?c1"
    using run_guards_permitted [OF le assms(2), of n] d by simp
  also have "\<dots> = (Rejected v, trace (GuardCall (n + k) (Inl v)) ?c1)"
    using assms(3) by (simp add: Let_def)
  also have "trace (GuardCall (n + k) (Inl v)) ?c1 =
      c\<lparr>ctx_trace := ctx_trace c @
         map (\<lambda>i. GuardCall (n + i) ((gs ! i) (ctx_req c) p (req_method (ctx_req c)))) [0..<Suc k]\<rparr>"
    using assms(3) by (simp add: trace_def)
  finally show ?thesis .
qed

subsection \<open>The stack built by init\<close>

lemma use_fields [simp]:
  "httpServer (use l a) = httpServer a @ [l]" "running (use l a) = running a"
  "servers (use l a) = servers a" "handlers (use l a) = handlers a"
  "runningServer (use l a) = runningServer a" "handlerMap (use l a) = handlerMap a"
  by (simp_all add: use_def)

lemma attach_layer: "attach m p f a = use (Route (method_string m) p f) a"
  by (cases m) simp_all

lemma attach_handlers_fields [simp]:
  "httpServer (attach_handlers hs a) = httpServer a @ map route_layer hs"
  "running (attach_handlers hs a) = running a"
  "servers (attach_handlers hs a) = servers a"
  "handlers (attach_handlers hs a) = handlers a"
  "runningServer (attach_handlers hs a) = runningServer a"
  "handlerMap (attach_handlers hs a) = handlerMap a"
  by (induction hs arbitrary: a) (simp_all add: attach_layer route_layer_def)

lemma init_fields [simp]:
  "httpServer (init x a) = httpServer a @ pipeline x (handlers a)"
  "running (init x a) = running a"
  "servers (init x a) = servers a"
  "handlers (init x a) = handlers a"
  "runningServer (init x a) = runningServer a"
  "handlerMap (init x a) = handlerMap a"
  by (simp_all add: init_def pipeline_def Let_def)

lemma start_fields:
  "httpServer (start x a) = (if running a then httpServer a else httpServer a @ pipeline x (handlers a))"
  "running (start x a)"
  "servers (start x a) = servers a @ [\<lparr>port = SERVER_PORT x, closed = False\<rparr>]"
  "handlers (start x a) = handlers a"
  "runningServer (start x a) = Some (length (servers a))"
  "handlerMap (start x a) = handlerMap a"
  by (simp_all add: start_def listen_def Let_def)

lemma constructor_fields [simp]:
  "httpServer (constructor x rd) = []" "\<not> running (constructor x rd)"
  "servers (constructor x rd) = []" "runningServer (constructor x rd) = None"
  by (simp_all add: constructor_def Let_def)

subsection \<open>Dispatch of a forwarded failure\<close>

lemma errorHandler_result:
  "errorHandler e c =
     (Done, c\<lparr>ctx_res := Some \<lparr>status = Some 500, body = Object [(''error'', Some (toString e))]\<rparr>,
              ctx_log := ctx_log c @ [LogErrorObj e (query e)]\<rparr>)"
  by (cases "query e") (simp_all add: errorHandler_def send_def)

lemma dispatch_error_skip:
  assumes "\<forall>l \<in> set ls. \<not> is_error_layer l"
  shows "dispatch x (ls @ ErrorUse errorHandler # rest) (Some e) c =
           c\<lparr>ctx_res := Some \<lparr>status = Some 500, body = Object [(''error'', Some (toString e))]\<rparr>,
             ctx_log := ctx_log c @ [LogErrorObj e (query e)]\<rparr>"
  using assms
proof (induction ls)
  case Nil
  show ?case by (simp add: errorHandler_result)
next
  case (Cons l ls)
  then show ?case by (cases l) simp_all
qed

lemma route_layers_ordinary: "\<forall>l \<in> set (map route_layer hs). \<not> is_error_layer l"
  by (simp add: route_layer_def)

lemma dispatch_routes_skip:
  assumes "\<forall>h \<in> set hs. \<not> routeApplies x (method_string (route_method h)) (path h) (ctx_req c)"
  shows "dispatch x (map route_layer hs @ rest) None c = dispatch x rest None c"
  using assms by (induction hs) (simp_all add: route_layer_def)

subsection \<open>The stages before the handlers\<close>

lemma cors_mw_next:
  assumes "fst (cors_mw wl c) = Next"
  shows "cors_mw wl c = (Next, c)" and "req_method (ctx_req c) \<noteq> ''OPTIONS''"
  using assms
  by (auto simp: cors_mw_def corsOrigin_def split: option.splits if_splits)

lemma logging_next:
  assumes "loggingMiddleware c = (Next, c2)"
  shows "ctx_req c2 = ctx_req c" and "ctx_rt c2 = ctx_rt c" and "ctx_trace c2 = ctx_trace c"
    and "ctx_res c2 = ctx_res c"
  using assms by (auto simp: loggingMiddleware_def Let_def split: option.splits)

lemma serve_started:
  "serve x (start x (constructor x rd)) c =
     dispatch x (pipeline x (handlers (constructor x rd))) None c"
  by (simp add: serve_def start_fields)

lemma dispatch_to_guard_stage:
  assumes "fst (cors_mw (CORS_WHITELIST x) c) = Next"
    and "loggingMiddleware c = (Next, c2)"
  shows "dispatch x (pipeline x hs) None c =
           dispatch x (Use (asyncWrapper (guardMiddleware hs)) # Use (jsonParser x) #
                       map route_layer hs @ [ErrorUse errorHandler]) None c2"
proof -
  note cors = cors_mw_next(1) [OF assms(1)]
  have "dispatch x (pipeline x hs) None c =
      dispatch x (Route ''OPTIONS'' ''*'' (cors_mw (CORS_WHITELIST x)) #
                  Use (asyncWrapper loggingMiddleware) #
                  Use (asyncWrapper (guardMiddleware hs)) # Use (jsonParser x) #
                  map route_layer hs @ [ErrorUse errorHandler]) None c"
    by (simp add: pipeline_def cors)
  also have "\<dots> =
      dispatch x (Use (asyncWrapper loggingMiddleware) #
                  Use (asyncWrapper (guardMiddleware hs)) # Use (jsonParser x) #
                  map route_layer hs @ [ErrorUse errorHandler]) None c"
    by (simp add: cors)
  also have "\<dots> =
      dispatch x (Use (asyncWrapper (guardMiddleware hs)) # Use (jsonParser x) #
                  map route_layer hs @ [ErrorUse errorHandler]) None c2"
    by (simp add: asyncWrapper_def assms(2))
  finally show ?thesis .
qed

text \<open>An error forwarded by the guard stage reaches the error handler.\<close>

lemma dispatch_guard_stage_error:
  assumes "guardMiddleware hs c = (Rejected (Err e), c')"
  shows "dispatch x (Use (asyncWrapper (guardMiddleware hs)) # Use (jsonParser x) #
                     map route_layer hs @ [ErrorUse errorHandler]) None c =
           c'\<lparr>ctx_res := Some \<lparr>status = Some 500, body = Object [(''error'', Some (toString e))]\<rparr>,
              ctx_log := ctx_log c' @ [LogErrorObj e (query e)]\<rparr>"
proof -
  have ord: "\<forall>l \<in> set (Use (jsonParser x) # map route_layer hs). \<not> is_error_layer l"
    by (simp add: route_layer_def)
  have "dispatch x (Use (asyncWrapper (guardMiddleware hs)) # Use (jsonParser x) #
                    map route_layer hs @ [ErrorUse errorHandler]) None c =
        dispatch x ((Use (jsonParser x) # map route_layer hs) @ ErrorUse errorHandler # []) (Some e) c'"
    by (simp add: asyncWrapper_def assms)
  also have "\<dots> =
      c'\<lparr>ctx_res := Some \<lparr>status = Some 500, body = Object [(''error'', Some (toString e))]\<rparr>,
         ctx_log := ctx_log c' @ [LogErrorObj e (query e)]\<rparr>"
    by (rule dispatch_error_skip [OF ord])
  finally show ?thesis .
qed

text \<open>The guard stage once the lookup has resolved the request to a route.\<close>

lemma guardMiddleware_resolved:
  assumes "req_method (ctx_req c) \<noteq> ''OPTIONS''"
    and "j < length hs" and "route_accepts (hs ! j) (ctx_req c)"
    and "\<forall>i<j. \<not> route_accepts (hs ! i) (ctx_req c)"
    and "path (hs ! j) \<noteq> []"
  shows "guardMiddleware hs c =
           (case guards (hs ! j) of
              None \<Rightarrow> (Next, c\<lparr>ctx_trace := ctx_trace c @ map RouteTest [0..<Suc j]\<rparr>)
            | Some gs \<Rightarrow>
                run_guards gs 0 (path (hs ! j))
                  (c\<lparr>ctx_trace := ctx_trace c @ map RouteTest [0..<Suc j]\<rparr>))"
proof -
  have fr: "find_route hs 0 c =
      (Some (hs ! j), c\<lparr>ctx_trace := ctx_trace c @ map RouteTest [0..<Suc j]\<rparr>)"
    using find_route_first [OF assms(2,3,4), of 0] by simp
  have m: "req_method (ctx_req c) = method_string (route_method (hs ! j))"
    using assms(3) by (simp add: route_accepts_def)
  show ?thesis
    unfolding guardMiddleware_def using assms(1,5) m by (simp add: fr del: upt_Suc)
qed

text \<open>
  When every guard of the chain permits, all of them have been invoked, in order, and the
  stage calls \<^verbatim>\<open>next()\<close>; when a guard throws or its promise is rejected, the guards up
  to it have been invoked and the promise of the stage is rejected with the same value.
\<close>

lemma guardMiddleware_all_permit:
  assumes "req_method (ctx_req c) \<noteq> ''OPTIONS''"
    and "j < length hs" and "route_accepts (hs ! j) (ctx_req c)"
    and "\<forall>i<j. \<not> route_accepts (hs ! i) (ctx_req c)"
    and "path (hs ! j) \<noteq> []" and "guards (hs ! j) = Some gs"
    and "\<forall>i<length gs. \<exists>r. (gs ! i) (ctx_req c) (path (hs ! j)) (req_method (ctx_req c)) = Inr r \<and>
                              accessPermitted r"
  shows "guardMiddleware hs c =
           (Next, c\<lparr>ctx_trace := ctx_trace c @ map RouteTest [0..<Suc j] @
              map (\<lambda>i. GuardCall i ((gs ! i) (ctx_req c) (path (hs ! j)) (req_method (ctx_req c))))
                [0..<length gs]\<rparr>)"
proof -
  let ?c1 = "c\<lparr>ctx_trace := ctx_trace c @ map RouteTest [0..<Suc j]\<rparr>"
  have perm: "\<forall>i<length gs. \<exists>r. (gs ! i) (ctx_req ?c1) (path (hs ! j)) (req_method (ctx_req ?c1)) = Inr r \<and>
                              accessPermitted r"
    using assms(7) by simp
  have "guardMiddleware hs c = run_guards gs 0 (path (hs ! j)) ?c1"
    using guardMiddleware_resolved [OF assms(1,2,3,4,5)] assms(6) by simp
  also have "\<dots> = (Next, ?c1\<lparr>ctx_trace := ctx_trace ?c1 @
      map (\<lambda>i. GuardCall (0 + i) ((gs ! i) (ctx_req ?c1) (path (hs ! j)) (req_method (ctx_req ?c1))))
        [0..<length gs]\<rparr>)"
    by (rule run_guards_all_permit [OF perm])
  also have "\<dots> = (Next, c\<lparr>ctx_trace := ctx_trace c @ map RouteTest [0..<Suc j] @
      map (\<lambda>i. GuardCall i ((gs ! i) (ctx_req c) (path (hs ! j)) (req_method (ctx_req c))))
        [0..<length gs]\<rparr>)"
    by (simp del: upt_Suc)
  finally show ?thesis .
qed

lemma guardMiddleware_guard_fails:
  assumes "req_method (ctx_req c) \<noteq> ''OPTIONS''"
    and "j < length hs" and "route_accepts (hs ! j) (ctx_req c)"
    and "\<forall>i<j. \<not> route_accepts (hs ! i) (ctx_req c)"
    and "path (hs ! j) \<noteq> []" and "guards (hs ! j) = Some gs"
    and "k < length gs"
    and "\<forall>i<k. \<exists>r. (gs ! i) (ctx_req c) (path (hs ! j)) (req_method (ctx_req c)) = Inr r \<and>
                     accessPermitted r"
    and "(gs ! k) (ctx_req c) (path (hs ! j)) (req_method (ctx_req c)) = Inl v"
  shows "guardMiddleware hs c =
           (Rejected v, c\<lparr>ctx_trace := ctx_trace c @ map RouteTest [0..<Suc j] @
              map (\<lambda>i. GuardCall i ((gs ! i) (ctx_req c) (path (hs ! j)) (req_method (ctx_req c))))
                [0..<Suc k]\<rparr>)"
proof -
  let ?c1 = "c\<lparr>ctx_trace := ctx_trace c @ map RouteTest [0..<Suc j]\<rparr>"
  have perm: "\<forall>i<k. \<exists>r. (gs ! i) (ctx_req ?c1) (path (hs ! j)) (req_method (ctx_req ?c1)) = Inr r \<and>
                     accessPermitted r"
    using assms(8) by simp
  have fl: "(gs ! k) (ctx_req ?c1) (path (hs ! j)) (req_method (ctx_req ?c1)) = Inl v"
    using assms(9) by simp
  have "guardMiddleware hs c = run_guards gs 0 (path (hs ! j)) ?c1"
    using guardMiddleware_resolved [OF assms(1,2,3,4,5)] assms(6) by simp
  also have "\<dots> = (Rejected v, ?c1\<lparr>ctx_trace := ctx_trace ?c1 @
      map (\<lambda>i. GuardCall (0 + i) ((gs ! i) (ctx_req ?c1) (path (hs ! j)) (req_method (ctx_req ?c1))))
        [0..<Suc k]\<rparr>)"
    by (rule run_guards_first_failure [OF assms(7) perm fl])
  also have "\<dots> = (Rejected v, c\<lparr>ctx_trace := ctx_trace c @ map RouteTest [0..<Suc j] @
      map (\<lambda>i. GuardCall i ((gs ! i) (ctx_req c) (path (hs ! j)) (req_method (ctx_req c))))
        [0..<Suc k]\<rparr>)"
    by (simp del: upt_Suc)
  finally show ?thesis .
qed


subsection \<open>The index built by the constructor\<close>

lemma route_key_inject:
  "route_key p m = route_key p' m' \<longleftrightarrow> p = p' \<and> m = m'"
proof
  assume eq: "route_key p m = route_key p' m'"
  then have "rev (route_key p m) = rev (route_key p' m')" by simp
  then show "p = p' \<and> m = m'"
    by (cases m; cases m') (simp_all add: route_key_def)
qed simp

lemma foldl_index_last:
  assumes "j < length hs" "key (hs ! j) = k"
    and "\<forall>i. j < i \<and> i < length hs \<longrightarrow> key (hs ! i) \<noteq> k"
  shows "foldl (\<lambda>m h. m(key h \<mapsto> h)) m0 hs k = Some (hs ! j)"
  using assms
proof (induction hs rule: rev_induct)
  case Nil
  then show ?case by simp
next
  case (snoc h hs)
  show ?case
  proof (cases "j = length hs")
    case True
    with snoc.prems show ?thesis by simp
  next
    case False
    with snoc.prems have j: "j < length hs" by simp
    from snoc.prems(3) have "j < length hs \<and> length hs < length (hs @ [h]) \<longrightarrow>
        key ((hs @ [h]) ! length hs) \<noteq> k" by blast
    with j have hk: "key h \<noteq> k" by simp
    have later: "\<forall>i. j < i \<and> i < length hs \<longrightarrow> key (hs ! i) \<noteq> k"
    proof (intro allI impI)
      fix i assume i: "j < i \<and> i < length hs"
      from snoc.prems(3) have "j < i \<and> i < length (hs @ [h]) \<longrightarrow> key ((hs @ [h]) ! i) \<noteq> k"
        by blast
      with i have "key ((hs @ [h]) ! i) \<noteq> k" by simp
      with i show "key (hs ! i) \<noteq> k" by (simp add: nth_append)
    qed
    from snoc.prems(2) j have "key (hs ! j) = k" by (simp add: nth_append)
    from snoc.IH [OF j this later] hk j show ?thesis by (simp add: nth_append)
  qed
qed

text \<open>The status endpoint of the declared route list: \<^verbatim>\<open>GET /\<close> is answered 200.\<close>

lemma status_endpoint:
  "ctx_res (serve ex_externals (start ex_externals (constructor ex_externals routeData))
              (ex_ctx ''GET'' ''/'' None)) =
     Some \<lparr>status = Some 200, body = Object [(''status'', Some ''ok'')]\<rparr>"
  by (simp add: ex_defs routeData_def start_fields pipeline_def route_layer_def serve_def
      cors_mw_def corsOrigin_def asyncWrapper_def loggingMiddleware_def guardMiddleware_def
      trace_def call_handler_def)

section \<open>The guard stage\<close>

text \<open>
  Claim C1 does not hold of every guard result. A guard of the route \<^verbatim>\<open>GET /wide\<close> denies
  with the status code 1000 and the message \<^verbatim>\<open>no key\<close>; the response object refuses the
  code, the promise of the stage is rejected with what it threw, and the client is
  answered 500 with the text of that error, not with the guard's status and message. The
  same happens on \<^verbatim>\<open>GET /bare\<close>, where the guard that denies names no status code at all.
  Nor is the chain of every route that matches the request evaluated: a guarded route
  \<^verbatim>\<open>GET /x\<close> declared after an open route \<^verbatim>\<open>GET /x\<close> accepts the request, and the stage calls
  \<^verbatim>\<open>next()\<close> after the first matcher test, with no guard invoked.
\<close>

theorem guard_denial_counterexample:
  "guardMiddleware (handlers (constructor ex_externals bare_routeData)) (ex_ctx ''GET'' ''/wide'' None) =
     (Rejected (Err (Failure ''RangeError: Invalid status code'' None None)),
      (ex_ctx ''GET'' ''/wide'' None)
        \<lparr>ctx_trace := [RouteTest 0, RouteTest 1, RouteTest 2,
           GuardCall 0 (Inr \<lparr>accessPermitted = False, error = Some ''no key'', statusCode = Some 1000\<rparr>)]\<rparr>) \<and>
   ctx_res (serve ex_externals (start ex_externals (constructor ex_externals bare_routeData))
              (ex_ctx ''GET'' ''/wide'' None)) =
     Some \<lparr>status = Some 500, body = Object [(''error'', Some ''RangeError: Invalid status code'')]\<rparr> \<and>
   ctx_res (serve ex_externals (start ex_externals (constructor ex_externals bare_routeData))
              (ex_ctx ''GET'' ''/bare'' None)) =
     Some \<lparr>status = Some 500, body = Object [(''error'', Some ''RangeError: Invalid status code'')]\<rparr> \<and>
   route_accepts (handlers (constructor ex_externals shadow_routeData) ! 1)
     (ctx_req (ex_ctx ''GET'' ''/x'' None)) \<and>
   guards (handlers (constructor ex_externals shadow_routeData) ! 1) = Some [deny ''nope'' 403] \<and>
   guardMiddleware (handlers (constructor ex_externals shadow_routeData)) (ex_ctx ''GET'' ''/x'' None) =
     (Next, (ex_ctx ''GET'' ''/x'' None)\<lparr>ctx_trace := [RouteTest 0]\<rparr>)"
  by (simp add: ex_defs start_fields pipeline_def route_layer_def serve_def route_accepts_def
      cors_mw_def corsOrigin_def asyncWrapper_def loggingMiddleware_def guardMiddleware_def
      trace_def respond_def send_def errorHandler_def)

text \<open>
  Claim C1, amended. Let the method of the request not be \<^verbatim>\<open>OPTIONS\<close>, let route \<open>j\<close> be the
  first registered route that accepts the request, with a path that is not empty and the
  guard chain \<open>gs\<close>, and let guard \<open>k\<close> of the chain be the first to return a result with
  \<^verbatim>\<open>accessPermitted = false\<close>, every guard before it having returned a permitting result,
  with a status code \<open>n\<close> from 100 to 999. Then the guard stage ends without calling
  \<^verbatim>\<open>next\<close>, the response carries exactly the status code and the \<^verbatim>\<open>error\<close> of that result,
  and what the stage has added to the trace is the lookup followed by the invocations of
  the guards 0 to \<open>k\<close>, one after the other in declared order, each called with the
  request, the route's path and the request's method: no guard at a later index has been
  invoked. The stage as \<^verbatim>\<open>init\<close> registers it leaves the request with this response, and no
  later layer of the stack runs.
\<close>

theorem guard_denial_short_circuits:
  assumes "req_method (ctx_req c) \<noteq> ''OPTIONS''"
    and "j < length hs" and "route_accepts (hs ! j) (ctx_req c)"
    and "\<forall>i<j. \<not> route_accepts (hs ! i) (ctx_req c)"
    and "path (hs ! j) \<noteq> []" and "guards (hs ! j) = Some gs"
    and "k < length gs"
    and "\<forall>i<k. \<exists>r'. (gs ! i) (ctx_req c) (path (hs ! j)) (req_method (ctx_req c)) = Inr r' \<and>
                      accessPermitted r'"
    and "(gs ! k) (ctx_req c) (path (hs ! j)) (req_method (ctx_req c)) = Inr r"
    and "\<not> accessPermitted r"
    and "statusCode r = Some n" and "100 \<le> n" and "n \<le> 999"
  shows "guardMiddleware hs c =
           (Done, c\<lparr>ctx_res := Some \<lparr>status = Some n, body = Object [(''error'', error r)]\<rparr>,
                    ctx_trace := ctx_trace c @ map RouteTest [0..<Suc j] @
                      map (\<lambda>i. GuardCall i ((gs ! i) (ctx_req c) (path (hs ! j)) (req_method (ctx_req c))))
                        [0..<Suc k]\<rparr>) \<and>
         dispatch x (Use (asyncWrapper (guardMiddleware hs)) # ls) None c =
           c\<lparr>ctx_res := Some \<lparr>status = Some n, body = Object [(''error'', error r)]\<rparr>,
             ctx_trace := ctx_trace c @ map RouteTest [0..<Suc j] @
               map (\<lambda>i. GuardCall i ((gs ! i) (ctx_req c) (path (hs ! j)) (req_method (ctx_req c))))
                 [0..<Suc k]\<rparr>"
proof -
  let ?c1 = "c\<lparr>ctx_trace := ctx_trace c @ map RouteTest [0..<Suc j]\<rparr>"
  let ?calls = "map (\<lambda>i. GuardCall i ((gs ! i) (ctx_req c) (path (hs ! j)) (req_method (ctx_req c))))
                  [0..<Suc k]"
  have perm: "\<forall>i<k. \<exists>r'. (gs ! i) (ctx_req ?c1) (path (hs ! j)) (req_method (ctx_req ?c1)) = Inr r' \<and>
                      accessPermitted r'"
    using assms(8) by simp
  have den: "(gs ! k) (ctx_req ?c1) (path (hs ! j)) (req_method (ctx_req ?c1)) = Inr r"
    using assms(9) by simp
  have "guardMiddleware hs c = run_guards gs 0 (path (hs ! j)) ?c1"
    using guardMiddleware_resolved [OF assms(1,2,3,4,5)] assms(6) by simp
  also have "\<dots> = respond (statusCode r) (Object [(''error'', error r)])
      (?c1\<lparr>ctx_trace := ctx_trace ?c1 @
         map (\<lambda>i. GuardCall (0 + i) ((gs ! i) (ctx_req ?c1) (path (hs ! j)) (req_method (ctx_req ?c1))))
           [0..<Suc k]\<rparr>)"
    by (rule run_guards_first_denial [OF assms(7) perm den assms(10)])
  also have "\<dots> =
      (Done, c\<lparr>ctx_res := Some \<lparr>status = Some n, body = Object [(''error'', error r)]\<rparr>,
               ctx_trace := ctx_trace c @ map RouteTest [0..<Suc j] @ ?calls\<rparr>)"
    using assms(11,12,13) by (simp add: respond_valid del: upt_Suc)
  finally have g: "guardMiddleware hs c =
      (Done, c\<lparr>ctx_res := Some \<lparr>status = Some n, body = Object [(''error'', error r)]\<rparr>,
               ctx_trace := ctx_trace c @ map RouteTest [0..<Suc j] @ ?calls\<rparr>)" .
  then have "dispatch x (Use (asyncWrapper (guardMiddleware hs)) # ls) None c =
      c\<lparr>ctx_res := Some \<lparr>status = Some n, body = Object [(''error'', error r)]\<rparr>,
        ctx_trace := ctx_trace c @ map RouteTest [0..<Suc j] @ ?calls\<rparr>"
    by (simp add: asyncWrapper_def del: upt_Suc)
  with g show ?thesis by blast
qed

text \<open>
  On \<^verbatim>\<open>GET /secret\<close>, whose chain permits, denies with 403 and would deny with 401, the
  third guard is not invoked and the answer is the second guard's.
\<close>

theorem guard_denial_short_circuits_witness:
  "guardMiddleware ex_handlers (ex_ctx ''GET'' ''/secret'' None) =
     (Done, (ex_ctx ''GET'' ''/secret'' None)
        \<lparr>ctx_res := Some \<lparr>status = Some 403, body = Object [(''error'', Some ''nope'')]\<rparr>,
         ctx_trace := [RouteTest 0, RouteTest 1,
           GuardCall 0 (Inr \<lparr>accessPermitted = True, error = None, statusCode = None\<rparr>),
           GuardCall 1 (Inr \<lparr>accessPermitted = False, error = Some ''nope'', statusCode = Some 403\<rparr>)]\<rparr>)"
proof -
  let ?c = "ex_ctx ''GET'' ''/secret'' None"
  let ?gs = "[permit, deny ''nope'' 403, deny ''late'' 401]"
  let ?r = "\<lparr>accessPermitted = False, error = Some ''nope'', statusCode = Some (403 :: int)\<rparr>"
  have m: "req_method (ctx_req ?c) \<noteq> ''OPTIONS''" by (simp add: ex_ctx_def)
  have j: "1 < length ex_handlers" by (simp add: ex_defs)
  have acc: "route_accepts (ex_handlers ! 1) (ctx_req ?c)" by (simp add: ex_defs route_accepts_def)
  have first: "\<forall>i<1. \<not> route_accepts (ex_handlers ! i) (ctx_req ?c)"
    by (simp add: ex_defs route_accepts_def)
  have p: "path (ex_handlers ! 1) \<noteq> []" by (simp add: ex_defs)
  have gs: "guards (ex_handlers ! 1) = Some ?gs" by (simp add: ex_defs)
  have k: "1 < length ?gs" by simp
  have perm: "\<forall>i<1. \<exists>r'. (?gs ! i) (ctx_req ?c) (path (ex_handlers ! 1)) (req_method (ctx_req ?c)) = Inr r' \<and>
                      accessPermitted r'"
    by (simp add: permit_def)
  have den: "(?gs ! 1) (ctx_req ?c) (path (ex_handlers ! 1)) (req_method (ctx_req ?c)) = Inr ?r"
    by (simp add: deny_def)
  have np: "\<not> accessPermitted ?r" and sc: "statusCode ?r = Some 403" by simp_all
  have tr: "ctx_trace ?c @ map RouteTest [0..<Suc 1] @
      map (\<lambda>i. GuardCall i ((?gs ! i) (ctx_req ?c) (path (ex_handlers ! 1)) (req_method (ctx_req ?c))))
        [0..<Suc 1] =
      [RouteTest 0, RouteTest 1,
       GuardCall 0 (Inr \<lparr>accessPermitted = True, error = None, statusCode = None\<rparr>),
       GuardCall 1 (Inr ?r)]"
    by (simp add: ex_ctx_def permit_def deny_def)
  from guard_denial_short_circuits [OF m j acc first p gs k perm den np sc]
  have "guardMiddleware ex_handlers ?c =
      (Done, ?c\<lparr>ctx_res := Some \<lparr>status = Some 403, body = Object [(''error'', error ?r)]\<rparr>,
                ctx_trace := ctx_trace ?c @ map RouteTest [0..<Suc 1] @
                  map (\<lambda>i. GuardCall i ((?gs ! i) (ctx_req ?c) (path (ex_handlers ! 1)) (req_method (ctx_req ?c))))
                    [0..<Suc 1]\<rparr>)"
    by simp
  then show ?thesis by (simp only: tr) simp
qed

text \<open>
  Claim C2 does not hold of every method: for an \<^verbatim>\<open>OPTIONS\<close> request to an undeclared path
  no registered route accepts the request (the lookup loop would find none), and yet the
  stage writes no 404 and calls \<^verbatim>\<open>next()\<close>.
\<close>

theorem route_resolution_counterexample:
  "fst (find_route ex_handlers 0 (ex_ctx ''OPTIONS'' ''/missing'' None)) = None \<and>
   guardMiddleware ex_handlers (ex_ctx ''OPTIONS'' ''/missing'' None) =
     (Next, ex_ctx ''OPTIONS'' ''/missing'' None)"
  by (simp add: ex_defs guardMiddleware_def trace_def)

text \<open>
  Claim C2, for every request whose method is not \<^verbatim>\<open>OPTIONS\<close>. The lookup tests the
  registered routes in declaration order and selects the first route whose matcher
  accepts the path and whose method is the request's: when \<open>j\<close> is the first such index,
  the routes 0 to \<open>j\<close> have been tested, in this order, and route \<open>j\<close> is selected. When no
  registered route accepts the request, every route has been tested, the stage answers
  404 with the body \<^verbatim>\<open>{"error": "Unknown route"}\<close> and does not call \<^verbatim>\<open>next\<close>, so that no
  later layer of the stack runs.
\<close>

theorem route_resolution_first_match:
  assumes "req_method (ctx_req c) \<noteq> ''OPTIONS''"
  shows "(\<forall>j<length hs.
            route_accepts (hs ! j) (ctx_req c) \<and> (\<forall>i<j. \<not> route_accepts (hs ! i) (ctx_req c)) \<longrightarrow>
            find_route hs 0 c =
              (Some (hs ! j), c\<lparr>ctx_trace := ctx_trace c @ map RouteTest [0..<Suc j]\<rparr>)) \<and>
         ((\<forall>h\<in>set hs. \<not> route_accepts h (ctx_req c)) \<longrightarrow>
            guardMiddleware hs c =
              (Done, c\<lparr>ctx_res := Some \<lparr>status = Some 404,
                                        body = Object [(''error'', Some ''Unknown route'')]\<rparr>,
                       ctx_trace := ctx_trace c @ map RouteTest [0..<length hs]\<rparr>) \<and>
            dispatch x (Use (asyncWrapper (guardMiddleware hs)) # ls) None c =
              c\<lparr>ctx_res := Some \<lparr>status = Some 404,
                                 body = Object [(''error'', Some ''Unknown route'')]\<rparr>,
                ctx_trace := ctx_trace c @ map RouteTest [0..<length hs]\<rparr>)"
proof (intro conjI allI impI)
  fix j assume "j < length hs"
    and "route_accepts (hs ! j) (ctx_req c) \<and> (\<forall>i<j. \<not> route_accepts (hs ! i) (ctx_req c))"
  then show "find_route hs 0 c =
      (Some (hs ! j), c\<lparr>ctx_trace := ctx_trace c @ map RouteTest [0..<Suc j]\<rparr>)"
    using find_route_first [of j hs c 0] by simp
next
  assume none: "\<forall>h\<in>set hs. \<not> route_accepts h (ctx_req c)"
  from find_route_none [OF none, of 0] assms
  show g: "guardMiddleware hs c =
      (Done, c\<lparr>ctx_res := Some \<lparr>status = Some 404,
                                body = Object [(''error'', Some ''Unknown route'')]\<rparr>,
               ctx_trace := ctx_trace c @ map RouteTest [0..<length hs]\<rparr>)"
    by (simp add: guardMiddleware_def respond_valid)
  then show "dispatch x (Use (asyncWrapper (guardMiddleware hs)) # ls) None c =
      c\<lparr>ctx_res := Some \<lparr>status = Some 404,
                         body = Object [(''error'', Some ''Unknown route'')]\<rparr>,
        ctx_trace := ctx_trace c @ map RouteTest [0..<length hs]\<rparr>"
    by (simp add: asyncWrapper_def)
qed

theorem route_resolution_first_match_witness:
  "find_route ex_handlers 0 (ex_ctx ''GET'' ''/secret'' None) =
     (Some (ex_handlers ! 1),
      (ex_ctx ''GET'' ''/secret'' None)\<lparr>ctx_trace := [RouteTest 0, RouteTest 1]\<rparr>) \<and>
   guardMiddleware ex_handlers (ex_ctx ''GET'' ''/missing'' None) =
     (Done, (ex_ctx ''GET'' ''/missing'' None)
        \<lparr>ctx_res := Some \<lparr>status = Some 404, body = Object [(''error'', Some ''Unknown route'')]\<rparr>,
         ctx_trace := [RouteTest 0, RouteTest 1]\<rparr>)"
proof -
  let ?c1 = "ex_ctx ''GET'' ''/secret'' None" and ?c2 = "ex_ctx ''GET'' ''/missing'' None"
  have len: "1 < length ex_handlers" by (simp add: ex_defs)
  have m1: "req_method (ctx_req ?c1) \<noteq> ''OPTIONS''" and m2: "req_method (ctx_req ?c2) \<noteq> ''OPTIONS''"
    by (simp_all add: ex_ctx_def)
  have acc: "route_accepts (ex_handlers ! 1) (ctx_req ?c1) \<and>
             (\<forall>i<1. \<not> route_accepts (ex_handlers ! i) (ctx_req ?c1))"
    by (simp add: ex_defs route_accepts_def)
  have none: "\<forall>h\<in>set ex_handlers. \<not> route_accepts h (ctx_req ?c2)"
    by (simp add: ex_defs route_accepts_def)
  from route_resolution_first_match [OF m1, of ex_handlers] len acc
  have a: "find_route ex_handlers 0 ?c1 =
      (Some (ex_handlers ! 1), ?c1\<lparr>ctx_trace := ctx_trace ?c1 @ map RouteTest [0..<Suc 1]\<rparr>)"
    by blast
  from route_resolution_first_match [OF m2, of ex_handlers] none
  have b: "guardMiddleware ex_handlers ?c2 =
      (Done, ?c2\<lparr>ctx_res := Some \<lparr>status = Some 404, body = Object [(''error'', Some ''Unknown route'')]\<rparr>,
                 ctx_trace := ctx_trace ?c2 @ map RouteTest [0..<length ex_handlers]\<rparr>)"
    by blast
  have u: "ctx_trace ?c1 @ map RouteTest [0..<Suc 1] = [RouteTest 0, RouteTest 1]"
    "ctx_trace ?c2 @ map RouteTest [0..<length ex_handlers] = [RouteTest 0, RouteTest 1]"
    by (simp_all add: ex_defs)
  from a b show ?thesis by (simp only: u simp_thms)
qed

text \<open>
  Claim C3. For a request with method \<^verbatim>\<open>OPTIONS\<close> the guard stage calls \<^verbatim>\<open>next()\<close> and leaves
  the context as it was, whatever the route table: nothing is added to the trace (no
  matcher is tested, no guard is invoked) and no response is written. The same holds of
  the stage as \<^verbatim>\<open>init\<close> registers it, so the request goes on to the following layers.
\<close>

theorem options_bypass_guard_stage:
  assumes "req_method (ctx_req c) = ''OPTIONS''"
  shows "guardMiddleware hs c = (Next, c) \<and> asyncWrapper (guardMiddleware hs) c = (Next, c) \<and>
         dispatch x (Use (asyncWrapper (guardMiddleware hs)) # ls) None c = dispatch x ls None c"
  using assms by (simp add: guardMiddleware_def asyncWrapper_def)

theorem options_bypass_guard_stage_witness:
  "guardMiddleware ex_handlers (ex_ctx ''OPTIONS'' ''/secret'' None) =
     (Next, ex_ctx ''OPTIONS'' ''/secret'' None)"
proof -
  have m: "req_method (ctx_req (ex_ctx ''OPTIONS'' ''/secret'' None)) = ''OPTIONS''"
    by (simp add: ex_ctx_def)
  from options_bypass_guard_stage [OF m, of ex_handlers] show ?thesis by simp
qed

text \<open>
  Claim C8. Let a freshly started server receive a request that passes the CORS stage
  and the logging stage, let route \<open>j\<close> be the first registered route that accepts it, with
  a path that is not empty and the guard chain \<open>gs\<close>, and let guard \<open>k\<close> be the first to deny,
  with a result whose \<^verbatim>\<open>statusCode\<close> is missing. The response object refuses the missing
  code by throwing, the promise of the guard stage is rejected, \<^verbatim>\<open>asyncWrapper\<close> forwards
  the error, and the error handler logs it and answers 500 with its string
  representation. The request is answered; no guard at a later index is invoked and no
  handler runs.
\<close>

theorem guard_denial_without_status:
  assumes "fst (cors_mw (CORS_WHITELIST x) c) = Next"
    and "loggingMiddleware c = (Next, c2)"
    and "hs = handlers (constructor x rd)"
    and "j < length hs" and "route_accepts (hs ! j) (ctx_req c)"
    and "\<forall>i<j. \<not> route_accepts (hs ! i) (ctx_req c)"
    and "path (hs ! j) \<noteq> []" and "guards (hs ! j) = Some gs"
    and "k < length gs"
    and "\<forall>i<k. \<exists>r'. (gs ! i) (ctx_req c) (path (hs ! j)) (req_method (ctx_req c)) = Inr r' \<and>
                      accessPermitted r'"
    and "(gs ! k) (ctx_req c) (path (hs ! j)) (req_method (ctx_req c)) = Inr r"
    and "\<not> accessPermitted r"
    and "statusCode r = None"
  shows "serve x (start x (constructor x rd)) c =
           c2\<lparr>ctx_res := Some \<lparr>status = Some 500,
                 body = Object [(''error'', Some (toString (invalidStatus (ctx_rt c) None)))]\<rparr>,
              ctx_log := ctx_log c2 @
                [LogErrorObj (invalidStatus (ctx_rt c) None) (query (invalidStatus (ctx_rt c) None))],
              ctx_trace := ctx_trace c @ map RouteTest [0..<Suc j] @
                map (\<lambda>i. GuardCall i ((gs ! i) (ctx_req c) (path (hs ! j)) (req_method (ctx_req c))))
                  [0..<Suc k]\<rparr>"
proof -
  let ?e = "invalidStatus (ctx_rt c) None"
  let ?c3 = "c2\<lparr>ctx_trace := ctx_trace c2 @ map RouteTest [0..<Suc j]\<rparr>"
  let ?calls = "map (\<lambda>i. GuardCall i ((gs ! i) (ctx_req c) (path (hs ! j)) (req_method (ctx_req c))))
                  [0..<Suc k]"
  note same = logging_next [OF assms(2)]
  have m: "req_method (ctx_req c2) \<noteq> ''OPTIONS''"
    using cors_mw_next(2) [OF assms(1)] same(1) by simp
  have acc: "route_accepts (hs ! j) (ctx_req c2)"
    and first: "\<forall>i<j. \<not> route_accepts (hs ! i) (ctx_req c2)"
    using assms(5,6) same(1) by simp_all
  have perm: "\<forall>i<k. \<exists>r'. (gs ! i) (ctx_req ?c3) (path (hs ! j)) (req_method (ctx_req ?c3)) = Inr r' \<and>
                      accessPermitted r'"
    using assms(10) same(1) by simp
  have den: "(gs ! k) (ctx_req ?c3) (path (hs ! j)) (req_method (ctx_req ?c3)) = Inr r"
    using assms(11) same(1) by simp
  have "guardMiddleware hs c2 = run_guards gs 0 (path (hs ! j)) ?c3"
    using guardMiddleware_resolved [OF m assms(4) acc first assms(7)] assms(8) by simp
  also have "\<dots> = respond (statusCode r) (Object [(''error'', error r)])
      (?c3\<lparr>ctx_trace := ctx_trace ?c3 @
         map (\<lambda>i. GuardCall (0 + i) ((gs ! i) (ctx_req ?c3) (path (hs ! j)) (req_method (ctx_req ?c3))))
           [0..<Suc k]\<rparr>)"
    by (rule run_guards_first_denial [OF assms(9) perm den assms(12)])
  also have "\<dots> =
      (Rejected (Err ?e), c2\<lparr>ctx_trace := ctx_trace c @ map RouteTest [0..<Suc j] @ ?calls\<rparr>)"
    using assms(13) same by (simp add: respond_missing del: upt_Suc)
  finally have g: "guardMiddleware hs c2 =
      (Rejected (Err ?e), c2\<lparr>ctx_trace := ctx_trace c @ map RouteTest [0..<Suc j] @ ?calls\<rparr>)" .
  have "serve x (start x (constructor x rd)) c =
      dispatch x (Use (asyncWrapper (guardMiddleware hs)) # Use (jsonParser x) #
                  map route_layer hs @ [ErrorUse errorHandler]) None c2"
    unfolding serve_started assms(3) [symmetric]
    by (rule dispatch_to_guard_stage [OF assms(1,2)])
  also have "\<dots> =
      (c2\<lparr>ctx_trace := ctx_trace c @ map RouteTest [0..<Suc j] @ ?calls\<rparr>)
        \<lparr>ctx_res := Some \<lparr>status = Some 500, body = Object [(''error'', Some (toString ?e))]\<rparr>,
         ctx_log := ctx_log (c2\<lparr>ctx_trace := ctx_trace c @ map RouteTest [0..<Suc j] @ ?calls\<rparr>) @
           [LogErrorObj ?e (query ?e)]\<rparr>"
    by (rule dispatch_guard_stage_error [OF g])
  also have "\<dots> =
      c2\<lparr>ctx_res := Some \<lparr>status = Some 500, body = Object [(''error'', Some (toString ?e))]\<rparr>,
         ctx_log := ctx_log c2 @ [LogErrorObj ?e (query ?e)],
         ctx_trace := ctx_trace c @ map RouteTest [0..<Suc j] @ ?calls\<rparr>"
    by (simp del: upt_Suc)
  finally show ?thesis .
qed

text \<open>
  On \<^verbatim>\<open>GET /bare\<close>, whose second guard denies without a status code, the client is answered
  500 and the third guard is not invoked.
\<close>

theorem guard_denial_without_status_witness:
  "serve ex_externals (start ex_externals (constructor ex_externals bare_routeData))
     (ex_ctx ''GET'' ''/bare'' None) =
   (ex_ctx ''GET'' ''/bare'' None)
     \<lparr>ctx_res := Some \<lparr>status = Some 500,
                        body = Object [(''error'', Some ''RangeError: Invalid status code'')]\<rparr>,
      ctx_log := [LogInfo ''Recieved request for GET /bare from 203.0.113.5'',
                  LogErrorObj (Failure ''RangeError: Invalid status code'' None None) None],
      ctx_trace := [RouteTest 0, RouteTest 1,
        GuardCall 0 (Inr \<lparr>accessPermitted = True, error = None, statusCode = None\<rparr>),
        GuardCall 1 (Inr \<lparr>accessPermitted = False, error = Some ''no key'', statusCode = None\<rparr>)]\<rparr>"
proof -
  let ?c = "ex_ctx ''GET'' ''/bare'' None"
  let ?c2 = "?c\<lparr>ctx_log := [LogInfo ''Recieved request for GET /bare from 203.0.113.5'']\<rparr>"
  let ?hs = "handlers (constructor ex_externals bare_routeData)"
  let ?gs = "[permit, deny_bare ''no key'', deny ''late'' 401]"
  let ?r = "\<lparr>accessPermitted = False, error = Some ''no key'', statusCode = (None :: int option)\<rparr>"
  have cors: "fst (cors_mw (CORS_WHITELIST ex_externals) ?c) = Next"
    by (simp add: cors_mw_def corsOrigin_def ex_ctx_def)
  have lg: "loggingMiddleware ?c = (Next, ?c2)"
    by (simp add: loggingMiddleware_def ex_ctx_def)
  have j: "1 < length ?hs" by (simp add: ex_defs)
  have acc: "route_accepts (?hs ! 1) (ctx_req ?c)" by (simp add: ex_defs route_accepts_def)
  have first: "\<forall>i<1. \<not> route_accepts (?hs ! i) (ctx_req ?c)"
    by (simp add: ex_defs route_accepts_def)
  have p: "path (?hs ! 1) \<noteq> []" by (simp add: ex_defs)
  have gs: "guards (?hs ! 1) = Some ?gs" by (simp add: ex_defs)
  have k: "1 < length ?gs" by simp
  have perm: "\<forall>i<1. \<exists>r'. (?gs ! i) (ctx_req ?c) (path (?hs ! 1)) (req_method (ctx_req ?c)) = Inr r' \<and>
                      accessPermitted r'"
    by (simp add: permit_def)
  have den: "(?gs ! 1) (ctx_req ?c) (path (?hs ! 1)) (req_method (ctx_req ?c)) = Inr ?r"
    by (simp add: deny_bare_def)
  have np: "\<not> accessPermitted ?r" and sc: "statusCode ?r = None" by simp_all
  have tr: "ctx_trace ?c @ map RouteTest [0..<Suc 1] @
      map (\<lambda>i. GuardCall i ((?gs ! i) (ctx_req ?c) (path (?hs ! 1)) (req_method (ctx_req ?c))))
        [0..<Suc 1] =
      [RouteTest 0, RouteTest 1,
       GuardCall 0 (Inr \<lparr>accessPermitted = True, error = None, statusCode = None\<rparr>),
       GuardCall 1 (Inr ?r)]"
    by (simp add: ex_ctx_def permit_def deny_bare_def)
  have rt: "invalidStatus (ctx_rt ?c) None = Failure ''RangeError: Invalid status code'' None None"
    by (simp add: ex_ctx_def ex_runtime_def)
  from guard_denial_without_status [OF cors lg refl j acc first p gs k perm den np sc]
  have "serve ex_externals (start ex_externals (constructor ex_externals bare_routeData)) ?c =
      ?c2\<lparr>ctx_res := Some \<lparr>status = Some 500,
              body = Object [(''error'', Some (toString (invalidStatus (ctx_rt ?c) None)))]\<rparr>,
           ctx_log := ctx_log ?c2 @
             [LogErrorObj (invalidStatus (ctx_rt ?c) None) (query (invalidStatus (ctx_rt ?c) None))],
           ctx_trace := ctx_trace ?c @ map RouteTest [0..<Suc 1] @
             map (\<lambda>i. GuardCall i ((?gs ! i) (ctx_req ?c) (path (?hs ! 1)) (req_method (ctx_req ?c))))
               [0..<Suc 1]\<rparr>" .
  then show ?thesis by (simp only: tr rt) simp
qed

section \<open>Failures of handlers\<close>




section \<open>The CORS stage\<close>

text \<open>
  Claim C5 does not hold of a request whose \<^verbatim>\<open>Origin\<close> header is present and empty: the
  header is not absent, the empty string is not in the allow-list and does not start with
  \<^verbatim>\<open>http://localhost\<close>, and the request is permitted, since \<^verbatim>\<open>!origin\<close> holds of the empty
  string.
\<close>

theorem cors_rule_counterexample:
  "fst (corsOrigin (CORS_WHITELIST ex_externals) (Some []) []) = Inr True \<and>
   Some [] \<noteq> (None :: string option) \<and>
   [] \<notin> set (CORS_WHITELIST ex_externals) \<and>
   \<not> prefix ''http://localhost'' [] \<and>
   fst (cors_mw (CORS_WHITELIST ex_externals) (ex_ctx ''GET'' ''/'' (Some []))) = Next"
  by (simp add: corsOrigin_def cors_mw_def ex_defs)

text \<open>
  Claim C5, amended. The \<^verbatim>\<open>origin\<close> function permits a request if and only if the
  \<^verbatim>\<open>Origin\<close> header is absent or empty, or the origin is in the allow-list, or it starts
  with \<^verbatim>\<open>http://localhost\<close>. When a request is rejected, a freshly started server logs the
  offending origin at error level and forwards the rejection to the error handler, which
  logs it and answers 500: no entry of the logging stage, no matcher test, no guard
  invocation and no handler response appears, none of the stages in between has run.
\<close>

theorem cors_stage_rule:
  "(fst (corsOrigin (CORS_WHITELIST x) (req_origin (ctx_req c)) (ctx_log c)) = Inr True \<longleftrightarrow>
      req_origin (ctx_req c) = None \<or> req_origin (ctx_req c) = Some [] \<or>
      (\<exists>orig. req_origin (ctx_req c) = Some orig \<and>
         (orig \<in> set (CORS_WHITELIST x) \<or> prefix ''http://localhost'' orig))) \<and>
   (\<forall>orig. req_origin (ctx_req c) = Some orig \<and>
       fst (corsOrigin (CORS_WHITELIST x) (req_origin (ctx_req c)) (ctx_log c)) \<noteq> Inr True \<longrightarrow>
       serve x (start x (constructor x rd)) c =
         c\<lparr>ctx_res := Some \<lparr>status = Some 500,
                            body = Object [(''error'', Some ''Error: Not allowed by CORS'')]\<rparr>,
           ctx_log := ctx_log c @
             [LogError (''Request with origin of '' @ orig @ '' is not allowed by CORS!''),
              LogErrorObj (js_Error ''Not allowed by CORS'') None]\<rparr>)"
proof (intro conjI allI impI)
  show "fst (corsOrigin (CORS_WHITELIST x) (req_origin (ctx_req c)) (ctx_log c)) = Inr True \<longleftrightarrow>
      req_origin (ctx_req c) = None \<or> req_origin (ctx_req c) = Some [] \<or>
      (\<exists>orig. req_origin (ctx_req c) = Some orig \<and>
         (orig \<in> set (CORS_WHITELIST x) \<or> prefix ''http://localhost'' orig))"
    by (cases "req_origin (ctx_req c)") (auto simp: corsOrigin_def)
next
  fix orig
  assume h: "req_origin (ctx_req c) = Some orig \<and>
       fst (corsOrigin (CORS_WHITELIST x) (req_origin (ctx_req c)) (ctx_log c)) \<noteq> Inr True"
  let ?e = "js_Error ''Not allowed by CORS''"
  let ?c1 = "c\<lparr>ctx_log := ctx_log c @
      [LogError (''Request with origin of '' @ orig @ '' is not allowed by CORS!'')]\<rparr>"
  let ?hs = "handlers (constructor x rd)"
  let ?tail = "[Route ''OPTIONS'' ''*'' (cors_mw (CORS_WHITELIST x)),
                Use (asyncWrapper loggingMiddleware),
                Use (asyncWrapper (guardMiddleware ?hs)),
                Use (jsonParser x)] @ map route_layer ?hs"
  from h have rej: "corsOrigin (CORS_WHITELIST x) (req_origin (ctx_req c)) (ctx_log c) =
      (Inl ?e, ctx_log c @ [LogError (''Request with origin of '' @ orig @ '' is not allowed by CORS!'')])"
    by (auto simp: corsOrigin_def split: if_splits)
  have stack: "httpServer (start x (constructor x rd)) =
      Use (cors_mw (CORS_WHITELIST x)) # ?tail @ ErrorUse errorHandler # []"
    by (simp add: start_fields pipeline_def)
  have ord: "\<forall>l \<in> set ?tail. \<not> is_error_layer l"
    by (simp add: route_layer_def)
  have "serve x (start x (constructor x rd)) c =
      dispatch x (?tail @ ErrorUse errorHandler # []) (Some ?e) ?c1"
    unfolding serve_def stack using rej by (simp add: cors_mw_def)
  also have "\<dots> = ?c1\<lparr>ctx_res := Some \<lparr>status = Some 500,
                            body = Object [(''error'', Some (toString ?e))]\<rparr>,
           ctx_log := ctx_log ?c1 @ [LogErrorObj ?e (query ?e)]\<rparr>"
    by (rule dispatch_error_skip [OF ord])
  also have "\<dots> = c\<lparr>ctx_res := Some \<lparr>status = Some 500,
                            body = Object [(''error'', Some ''Error: Not allowed by CORS'')]\<rparr>,
           ctx_log := ctx_log c @
             [LogError (''Request with origin of '' @ orig @ '' is not allowed by CORS!''),
              LogErrorObj (js_Error ''Not allowed by CORS'') None]\<rparr>"
    by (simp add: js_Error_def)
  finally show "serve x (start x (constructor x rd)) c =
         c\<lparr>ctx_res := Some \<lparr>status = Some 500,
                            body = Object [(''error'', Some ''Error: Not allowed by CORS'')]\<rparr>,
           ctx_log := ctx_log c @
             [LogError (''Request with origin of '' @ orig @ '' is not allowed by CORS!''),
              LogErrorObj (js_Error ''Not allowed by CORS'') None]\<rparr>" .
qed

theorem cors_stage_rule_witness:
  "fst (corsOrigin (CORS_WHITELIST ex_externals) (Some ''http://evil.example'') []) \<noteq> Inr True \<and>
   serve ex_externals (start ex_externals (constructor ex_externals ex_routeData))
     (ex_ctx ''GET'' ''/'' (Some ''http://evil.example'')) =
   (ex_ctx ''GET'' ''/'' (Some ''http://evil.example''))
     \<lparr>ctx_res := Some \<lparr>status = Some 500,
                        body = Object [(''error'', Some ''Error: Not allowed by CORS'')]\<rparr>,
      ctx_log := ctx_log (ex_ctx ''GET'' ''/'' (Some ''http://evil.example'')) @
        [LogError (''Request with origin of '' @ ''http://evil.example'' @ '' is not allowed by CORS!''),
         LogErrorObj (js_Error ''Not allowed by CORS'') None]\<rparr>"
proof -
  let ?c = "ex_ctx ''GET'' ''/'' (Some ''http://evil.example'')"
  have o: "req_origin (ctx_req ?c) = Some ''http://evil.example''" and l: "ctx_log ?c = []"
    by (simp_all add: ex_ctx_def)
  have rej: "fst (corsOrigin (CORS_WHITELIST ex_externals) (Some ''http://evil.example'') []) \<noteq> Inr True"
    by (simp add: corsOrigin_def ex_externals_def)
  then have h: "req_origin (ctx_req ?c) = Some ''http://evil.example'' \<and>
     fst (corsOrigin (CORS_WHITELIST ex_externals) (req_origin (ctx_req ?c)) (ctx_log ?c)) \<noteq> Inr True"
    by (simp only: o l simp_thms)
  from cors_stage_rule [of ex_externals ?c ex_routeData] h rej show ?thesis by blast
qed

section \<open>Starting and stopping\<close>

text \<open>
  Claim C6 at two calls of \<^verbatim>\<open>start()\<close> on a new object. The second call does not run
  \<^verbatim>\<open>init\<close> again (the stack is unchanged), but it calls \<^verbatim>\<open>listen\<close> again: a second server
  is created for the same port, and \<^verbatim>\<open>runningServer\<close> now refers to it, so that \<^verbatim>\<open>stop()\<close>
  closes the second server and leaves the first one open.
\<close>

theorem start_twice_listens_twice:
  "servers (start x (constructor x rd)) = [\<lparr>port = SERVER_PORT x, closed = False\<rparr>] \<and>
   runningServer (start x (constructor x rd)) = Some 0 \<and>
   httpServer (start x (start x (constructor x rd))) = httpServer (start x (constructor x rd)) \<and>
   servers (start x (start x (constructor x rd))) =
     [\<lparr>port = SERVER_PORT x, closed = False\<rparr>, \<lparr>port = SERVER_PORT x, closed = False\<rparr>] \<and>
   runningServer (start x (start x (constructor x rd))) = Some 1 \<and>
   map_option servers (stop (start x (start x (constructor x rd)))) =
     Some [\<lparr>port = SERVER_PORT x, closed = False\<rparr>, \<lparr>port = SERVER_PORT x, closed = True\<rparr>]"
  by (simp add: start_fields stop_def close_def)

section \<open>Registration\<close>

text \<open>
  Claim C7 does not hold: with two declarations of \<^verbatim>\<open>GET /\<close> the constructor keeps both in
  the handler list, the index keeps the second, \<^verbatim>\<open>start()\<close> assembles the stack of eight
  layers and sets \<^verbatim>\<open>running\<close>, and a request for \<^verbatim>\<open>GET /\<close> is answered by the handler of the
  first declaration.
\<close>

theorem duplicate_routes_counterexample:
  "map path (handlers (constructor ex_externals dup_routeData)) = [''/'', ''/''] \<and>
   map route_method (handlers (constructor ex_externals dup_routeData)) = [GET, GET] \<and>
   map description (handlers (constructor ex_externals dup_routeData)) = [''first'', ''second''] \<and>
   map_option description (handlerMap (constructor ex_externals dup_routeData) (route_key ''/'' GET)) =
     Some ''second'' \<and>
   running (start ex_externals (constructor ex_externals dup_routeData)) \<and>
   length (httpServer (start ex_externals (constructor ex_externals dup_routeData))) = 8 \<and>
   ctx_res (serve ex_externals (start ex_externals (constructor ex_externals dup_routeData))
              (ex_ctx ''GET'' ''/'' None)) =
     Some \<lparr>status = Some 200, body = Object [(''status'', Some ''ok'')]\<rparr>"
  by (simp add: ex_defs start_fields pipeline_def route_layer_def serve_def
      cors_mw_def corsOrigin_def asyncWrapper_def loggingMiddleware_def guardMiddleware_def
      trace_def send_def call_handler_def)

text \<open>
  Claim C7, amended. When two declarations \<open>i < j\<close> of the list have the same path and
  method, and \<open>j\<close> is the last declaration of this pair, registration does not fail: the
  constructor keeps every declaration, in declaration order, in the handler list, the
  index \<^verbatim>\<open>handlerMap\<close> holds the handler of declaration \<open>j\<close> under the key of the pair, and
  \<^verbatim>\<open>start()\<close> sets \<^verbatim>\<open>running\<close> with the handler list unchanged.
\<close>

theorem duplicate_routes_accepted:
  assumes "i < j" and "j < length rd"
    and "path (rd ! i) = path (rd ! j)" and "route_method (rd ! i) = route_method (rd ! j)"
    and "\<forall>k. j < k \<and> k < length rd \<longrightarrow>
           \<not> (path (rd ! k) = path (rd ! j) \<and> route_method (rd ! k) = route_method (rd ! j))"
  shows "map path (handlers (constructor x rd)) = map path rd \<and>
         map route_method (handlers (constructor x rd)) = map route_method rd \<and>
         map description (handlers (constructor x rd)) = map description rd \<and>
         map guards (handlers (constructor x rd)) = map guards rd \<and>
         map routeImplementation (handlers (constructor x rd)) = map routeImplementation rd \<and>
         handlerMap (constructor x rd) (route_key (path (rd ! j)) (route_method (rd ! j))) =
           Some (handlers (constructor x rd) ! j) \<and>
         running (start x (constructor x rd)) \<and>
         handlers (start x (constructor x rd)) = handlers (constructor x rd)"
proof -
  let ?mk = "\<lambda>r. \<lparr>path = path r, description = description r,
                    routeImplementation = routeImplementation r, route_method = route_method r,
                    guards = guards r, routeMatchTest = pathMatch x (path r)\<rparr>"
  let ?key = "\<lambda>h :: ApiRoute. route_key (path h) (route_method h)"
  have hs: "handlers (constructor x rd) = map ?mk rd"
    by (simp add: constructor_def Let_def)
  have hm: "handlerMap (constructor x rd) = foldl (\<lambda>m h. m(?key h \<mapsto> h)) Map.empty (map ?mk rd)"
    by (simp add: constructor_def Let_def)
  have j: "j < length (map ?mk rd)" using assms(2) by simp
  have kj: "?key (map ?mk rd ! j) = route_key (path (rd ! j)) (route_method (rd ! j))"
    using assms(2) by simp
  have later: "\<forall>k. j < k \<and> k < length (map ?mk rd) \<longrightarrow>
      ?key (map ?mk rd ! k) \<noteq> route_key (path (rd ! j)) (route_method (rd ! j))"
    using assms(5) by (simp add: route_key_inject)
  have "handlerMap (constructor x rd) (route_key (path (rd ! j)) (route_method (rd ! j))) =
      Some (map ?mk rd ! j)"
    unfolding hm by (rule foldl_index_last [OF j kj later])
  then show ?thesis
    by (simp add: hs start_fields comp_def)
qed

theorem duplicate_routes_accepted_witness:
  "handlerMap (constructor ex_externals dup_routeData)
     (route_key (path (dup_routeData ! 1)) (route_method (dup_routeData ! 1))) =
     Some (handlers (constructor ex_externals dup_routeData) ! 1) \<and>
   map description (handlers (constructor ex_externals dup_routeData)) = map description dup_routeData \<and>
   running (start ex_externals (constructor ex_externals dup_routeData))"
proof -
  have a: "(0::nat) < 1" and b: "1 < length dup_routeData"
    and c: "path (dup_routeData ! 0) = path (dup_routeData ! 1)"
    and d: "route_method (dup_routeData ! 0) = route_method (dup_routeData ! 1)"
    and e: "\<forall>k. 1 < k \<and> k < length dup_routeData \<longrightarrow>
           \<not> (path (dup_routeData ! k) = path (dup_routeData ! 1) \<and>
              route_method (dup_routeData ! k) = route_method (dup_routeData ! 1))"
    by (simp_all add: dup_routeData_def)
  from duplicate_routes_accepted [OF a b c d e, of ex_externals] show ?thesis by blast
qed

section \<open>The logging stage\<close>

text \<open>
  Claim C9 does not hold of a request whose \<^verbatim>\<open>req.ip\<close> is \<^verbatim>\<open>undefined\<close> (the assertion
  \<^verbatim>\<open>req.ip!\<close> does not exist at run time): \<^verbatim>\<open>ip.substr\<close> throws, the stage logs nothing and
  does not call through to the next stage. \<^verbatim>\<open>asyncWrapper\<close> forwards the error, and a
  request for the status endpoint is answered 500 by the error handler, with no route
  looked up and no handler run.
\<close>

theorem logging_stage_counterexample:
  "loggingMiddleware (ex_ctx_no_ip ''GET'' ''/'') =
     (Rejected (Err (Failure ''TypeError: Cannot read properties of undefined'' None None)),
      ex_ctx_no_ip ''GET'' ''/'') \<and>
   serve ex_externals (start ex_externals (constructor ex_externals routeData))
     (ex_ctx_no_ip ''GET'' ''/'') =
   (ex_ctx_no_ip ''GET'' ''/'')
     \<lparr>ctx_res := Some \<lparr>status = Some 500,
          body = Object [(''error'', Some ''TypeError: Cannot read properties of undefined'')]\<rparr>,
      ctx_log := [LogErrorObj (Failure ''TypeError: Cannot read properties of undefined'' None None) None]\<rparr>"
  by (simp add: ex_defs routeData_def start_fields pipeline_def route_layer_def serve_def
      cors_mw_def corsOrigin_def asyncWrapper_def loggingMiddleware_def errorHandler_def send_def)

text \<open>
  Claim C9, amended: for a request whose client address \<^verbatim>\<open>req.ip\<close> is defined. The logging
  stage calls \<^verbatim>\<open>next()\<close>, also as \<^verbatim>\<open>init\<close> registers it, so that the dispatch goes on with the
  following layers; it changes nothing of the context but the log (the request, the
  response and the trace are as before), to which it adds one entry at info level naming
  the method, the path and the client address. The address recorded is what follows the
  prefix \<^verbatim>\<open>::ffff:\<close> when the address starts with it, and the address itself otherwise.
\<close>

theorem logging_stage_observer:
  assumes "req_ip (ctx_req c) = Some raw"
  shows "fst (loggingMiddleware c) = Next \<and>
   (snd (loggingMiddleware c))\<lparr>ctx_log := ctx_log c\<rparr> = c \<and>
   asyncWrapper loggingMiddleware c = loggingMiddleware c \<and>
   dispatch x (Use (asyncWrapper loggingMiddleware) # ls) None c =
     dispatch x ls None (snd (loggingMiddleware c)) \<and>
   (\<exists>ip. ctx_log (snd (loggingMiddleware c)) = ctx_log c @
            [LogInfo (''Recieved request for '' @ req_method (ctx_req c) @ '' '' @
                      req_path (ctx_req c) @ '' from '' @ ip)] \<and>
         (\<forall>rest. raw = ''::ffff:'' @ rest \<longrightarrow> ip = rest) \<and>
         (\<not> prefix ''::ffff:'' raw \<longrightarrow> ip = raw))"
proof -
  let ?ip = "if take 7 raw = ''::ffff:'' then drop 7 raw else raw"
  have run: "loggingMiddleware c = (Next, c\<lparr>ctx_log := ctx_log c @
            [LogInfo (''Recieved request for '' @ req_method (ctx_req c) @ '' '' @
                      req_path (ctx_req c) @ '' from '' @ ?ip)]\<rparr>)"
    using assms by (simp add: loggingMiddleware_def Let_def)
  have p: "prefix ''::ffff:'' raw \<longleftrightarrow> take 7 raw = ''::ffff:''"
  proof
    assume "prefix ''::ffff:'' raw"
    then show "take 7 raw = ''::ffff:''" by (auto simp: prefix_def)
  next
    assume "take 7 raw = ''::ffff:''"
    then have "raw = ''::ffff:'' @ drop 7 raw" by (metis append_take_drop_id)
    then show "prefix ''::ffff:'' raw" by (metis prefixI)
  qed
  have strip: "\<forall>rest. raw = ''::ffff:'' @ rest \<longrightarrow> ?ip = rest" by simp
  have keep: "\<not> prefix ''::ffff:'' raw \<longrightarrow> ?ip = raw" by (simp add: p)
  have ex: "\<exists>ip. ctx_log (snd (loggingMiddleware c)) = ctx_log c @
            [LogInfo (''Recieved request for '' @ req_method (ctx_req c) @ '' '' @
                      req_path (ctx_req c) @ '' from '' @ ip)] \<and>
         (\<forall>rest. raw = ''::ffff:'' @ rest \<longrightarrow> ip = rest) \<and>
         (\<not> prefix ''::ffff:'' raw \<longrightarrow> ip = raw)"
    using strip keep by (intro exI [of _ ?ip]) (simp add: run)
  have w: "asyncWrapper loggingMiddleware c = loggingMiddleware c"
    by (simp add: asyncWrapper_def run)
  have d: "dispatch x (Use (asyncWrapper loggingMiddleware) # ls) None c =
     dispatch x ls None (snd (loggingMiddleware c))"
    by (simp add: w) (simp add: run)
  have f: "fst (loggingMiddleware c) = Next" "(snd (loggingMiddleware c))\<lparr>ctx_log := ctx_log c\<rparr> = c"
    by (simp_all add: run)
  from f w d ex show ?thesis by blast
qed

text \<open>A client arriving as \<^verbatim>\<open>::ffff:203.0.113.5\<close> is logged as \<^verbatim>\<open>203.0.113.5\<close>.\<close>

theorem logging_stage_observer_witness:
  "fst (loggingMiddleware (ex_ctx ''GET'' ''/'' None)) = Next \<and>
   ctx_log (snd (loggingMiddleware (ex_ctx ''GET'' ''/'' None))) =
     [LogInfo ''Recieved request for GET / from 203.0.113.5'']"
proof -
  let ?c = "ex_ctx ''GET'' ''/'' None"
  have raw: "req_ip (ctx_req ?c) = Some (''::ffff:'' @ ''203.0.113.5'')" by (simp add: ex_ctx_def)
  from logging_stage_observer [OF raw] obtain ip where
    nx: "fst (loggingMiddleware ?c) = Next"
    and lg: "ctx_log (snd (loggingMiddleware ?c)) = ctx_log ?c @
            [LogInfo (''Recieved request for '' @ req_method (ctx_req ?c) @ '' '' @
                      req_path (ctx_req ?c) @ '' from '' @ ip)]"
    and strip: "\<forall>rest. ''::ffff:'' @ ''203.0.113.5'' = ''::ffff:'' @ rest \<longrightarrow> ip = rest"
    by blast
  from strip have "ip = ''203.0.113.5''" by blast
  with lg nx show ?thesis by (simp add: ex_ctx_def)
qed

text \<open>
  Without a client address the stage rejects its promise and leaves the context as it
  was; as \<^verbatim>\<open>init\<close> registers it, the error is forwarded with \<^verbatim>\<open>next(err)\<close>.
\<close>

lemma logging_stage_without_address:
  assumes "req_ip (ctx_req c) = None"
  shows "loggingMiddleware c = (Rejected (Err (undefinedRead (ctx_rt c))), c)"
    and "asyncWrapper loggingMiddleware c = (NextErr (Err (undefinedRead (ctx_rt c))), c)"
  using assms by (simp_all add: loggingMiddleware_def asyncWrapper_def)

section \<open>Restarting\<close>

text \<open>
  Claim C10. \<^verbatim>\<open>init\<close> appends the pipeline (six layers and one for each handler) to the
  stack of the application. From a state that is not running, \<^verbatim>\<open>start()\<close> runs \<^verbatim>\<open>init\<close>;
  \<^verbatim>\<open>stop()\<close> then returns, with \<^verbatim>\<open>running\<close> false and the stack kept; the next \<^verbatim>\<open>start()\<close>
  therefore runs \<^verbatim>\<open>init\<close> again, on the same stack, which then holds a second copy of
  every layer.
\<close>

theorem restart_assembles_pipeline_again:
  assumes "\<not> running a"
  shows "httpServer (init x a) = httpServer a @ pipeline x (handlers a) \<and>
         length (pipeline x (handlers a)) = 6 + length (handlers a) \<and>
         httpServer (start x a) = httpServer (init x a) \<and>
         (\<exists>a2. stop (start x a) = Some a2 \<and> \<not> running a2 \<and>
            httpServer a2 = httpServer (start x a) \<and>
            handlers a2 = handlers a \<and>
            httpServer (start x a2) = httpServer (init x a2) \<and>
            httpServer (start x a2) =
              httpServer a @ pipeline x (handlers a) @ pipeline x (handlers a))"
proof -
  let ?a1 = "start x a"
  let ?a2 = "(close (length (servers a)) ?a1)\<lparr>running := False\<rparr>"
  have st: "stop ?a1 = Some ?a2"
    by (simp add: stop_def start_fields)
  have f: "\<not> running ?a2" "httpServer ?a2 = httpServer ?a1" "handlers ?a2 = handlers a"
    by (simp_all add: close_def start_fields)
  have re: "httpServer (start x ?a2) = httpServer (init x ?a2)"
    using f(1) by (simp add: start_fields)
  with f assms have again: "httpServer (start x ?a2) =
      httpServer a @ pipeline x (handlers a) @ pipeline x (handlers a)"
    by (simp add: start_fields)
  have len: "length (pipeline x (handlers a)) = 6 + length (handlers a)"
    by (simp add: pipeline_def)
  have i: "httpServer (init x a) = httpServer a @ pipeline x (handlers a)"
    by simp
  have first: "httpServer ?a1 = httpServer (init x a)"
    using assms by (simp add: start_fields)
  from i len first st f re again show ?thesis by blast
qed

theorem restart_assembles_pipeline_again_witness:
  "\<exists>a2. stop (start ex_externals (constructor ex_externals ex_routeData)) = Some a2 \<and>
      httpServer (start ex_externals a2) = pipeline ex_externals ex_handlers @ pipeline ex_externals ex_handlers"
proof -
  have nr: "\<not> running (constructor ex_externals ex_routeData)" by simp
  from restart_assembles_pipeline_again [OF nr, of ex_externals]
  show ?thesis by (auto simp: ex_handlers_def)
qed

end
